theory Spec2Isabelle
  imports Complex_Main "HOL-Library.AList" "HOL-Library.Sublist"
begin

section \<open>Replies\<close>

text \<open>
  A Fastify reply as the handlers build it: \<open>reply.code(n).send(b)\<close> is \<open>Reply n b\<close>,
  and \<open>reply.send(b)\<close> with no code set is \<open>Reply 200 b\<close>. A body is the object
  \<open>{ error: msg }\<close>, the object \<open>{ error: msg, details: d }\<close> that answers a
  validation error (\<open>d\<close> is what the validator reports), or the data the route sends.
\<close>

datatype 'a reply_body = ErrorBody string | ErrorDetails string string | Data 'a

datatype 'a reply = Reply (code: nat) (body: "'a reply_body")

section \<open>JavaScript values\<close>

text \<open>
  The values a field typed \<open>any\<close> holds here: what \<open>JSON.parse\<close> builds, and
  \<open>undefined\<close> for a field that is absent. A number is carried as the string that
  \<open>ToString\<close> gives for it (so \<open>''0''\<close> stands for \<open>+0\<close> and \<open>-0\<close>, \<open>''NaN''\<close> for
  \<open>NaN\<close>); an object is the list of its own properties. Strings are lists of 8-bit
  characters, read as the code units U+0000 to U+00FF.
\<close>

datatype jsval =
    JUndefined
  | JNull
  | JBool bool
  | JNum string
  | JStr string
  | JArr "jsval list"
  | JObj "(string \<times> jsval) list"

text \<open>Decimal rendering of a natural number, as \<open>ToString\<close> gives for \<open>Date.now()\<close>
  and for the other integers below.\<close>

fun show_nat :: "nat \<Rightarrow> string" where
  "show_nat n =
     (if n < 10 then [char_of (48 + n)]
      else show_nat (n div 10) @ [char_of (48 + n mod 10)])"

declare show_nat.simps [simp del]

text \<open>The clock as a handler reads it: \<open>Date.now()\<close> and
  \<open>new Date().toISOString()\<close>.\<close>

record clock =
  now_ms :: nat
  now_iso :: string

section \<open>JavaScript strings and conversions\<close>

datatype js_error = TypeError | RangeError

definition bind_err :: "'e + 'a \<Rightarrow> ('a \<Rightarrow> 'e + 'b) \<Rightarrow> 'e + 'b" where
  "bind_err m f = (case m of Inl e \<Rightarrow> Inl e | Inr x \<Rightarrow> f x)"

text \<open>\<open>toLowerCase\<close> on the code units U+0000 to U+00FF: the letters A to Z and the
  capital letters U+00C0 to U+00DE other than the multiplication sign move up by 32.\<close>

definition lower_char :: "char \<Rightarrow> char" where
  "lower_char c =
     (let n = (of_char c :: nat)
      in if (65 \<le> n \<and> n \<le> 90) \<or> (192 \<le> n \<and> n \<le> 222 \<and> n \<noteq> 215) then char_of (n + 32) else c)"

definition toLowerCase :: "string \<Rightarrow> string" where
  "toLowerCase s = map lower_char s"

text \<open>\<open>text.includes(pat)\<close>.\<close>

fun js_includes :: "string \<Rightarrow> string \<Rightarrow> bool" where
  "js_includes [] pat = (pat = [])"
| "js_includes (c # cs) pat = (prefix pat (c # cs) \<or> js_includes cs pat)"

text \<open>\<open>strs.join(sep)\<close> on strings.\<close>

fun join_strings :: "string \<Rightarrow> string list \<Rightarrow> string" where
  "join_strings sep [] = []"
| "join_strings sep [s] = s"
| "join_strings sep (s # t # ts) = s @ sep @ join_strings sep (t # ts)"

text \<open>Truthiness, as \<open>Boolean(v)\<close> and \<open>v || d\<close> read it.\<close>

fun truthy :: "jsval \<Rightarrow> bool" where
  "truthy JUndefined = False"
| "truthy JNull = False"
| "truthy (JBool b) = b"
| "truthy (JNum r) = (r \<noteq> ''0'' \<and> r \<noteq> ''NaN'')"
| "truthy (JStr s) = (s \<noteq> [])"
| "truthy (JArr xs) = True"
| "truthy (JObj kvs) = True"

text \<open>
  \<open>v?.k\<close> for the keys read below (\<open>text\<close>, \<open>action\<close>, \<open>target\<close>): an object gives
  its own property of that name; \<open>undefined\<close>, \<open>null\<close>, a primitive and an array give
  \<open>undefined\<close>, as does an object without it (no prototype has these names).
\<close>

fun get_field :: "jsval \<Rightarrow> string \<Rightarrow> jsval" where
  "get_field (JObj kvs) k = (case map_of kvs k of Some v \<Rightarrow> v | None \<Rightarrow> JUndefined)"
| "get_field _ k = JUndefined"

text \<open>
  \<open>ToString\<close>, which template literals and \<open>join\<close> apply. An array is joined with
  commas, \<open>null\<close> and \<open>undefined\<close> elements giving the empty string. An object
  without an own property \<open>toString\<close> gives \<open>[object Object]\<close>; with one (a value, so
  not callable) the conversion finds no method that returns a primitive and throws a
  \<open>TypeError\<close>.
\<close>

fun to_string :: "jsval \<Rightarrow> js_error + string"
  and elems_to_strings :: "jsval list \<Rightarrow> js_error + string list" where
  "to_string JUndefined = Inr ''undefined''"
| "to_string JNull = Inr ''null''"
| "to_string (JBool b) = Inr (if b then ''true'' else ''false'')"
| "to_string (JNum r) = Inr r"
| "to_string (JStr s) = Inr s"
| "to_string (JArr xs) =
     (case elems_to_strings xs of Inl e \<Rightarrow> Inl e | Inr strs \<Rightarrow> Inr (join_strings '','' strs))"
| "to_string (JObj kvs) =
     (if ''toString'' \<in> set (map fst kvs) then Inl TypeError else Inr ''[object Object]'')"
| "elems_to_strings [] = Inr []"
| "elems_to_strings (v # vs) =
     (case (if v = JUndefined \<or> v = JNull then Inr [] else to_string v) of
        Inl e \<Rightarrow> Inl e
      | Inr s \<Rightarrow> (case elems_to_strings vs of Inl e \<Rightarrow> Inl e | Inr strs \<Rightarrow> Inr (s # strs)))"

text \<open>\<open>vs.join(sep)\<close> on values.\<close>

definition js_join :: "string \<Rightarrow> jsval list \<Rightarrow> js_error + string" where
  "js_join sep vs = bind_err (elems_to_strings vs) (\<lambda>strs. Inr (join_strings sep strs))"

text \<open>A \<open>Date\<close>, by what \<open>toISOString\<close> does on it: a valid date gives its ISO
  string, an invalid date throws a \<open>RangeError\<close>.\<close>

datatype js_date = Date string | InvalidDate

fun toISOString :: "js_date \<Rightarrow> js_error + string" where
  "toISOString (Date isoString) = Inr isoString"
| "toISOString InvalidDate = Inl RangeError"

section \<open>Authentication middleware\<close>

text \<open>The interface \<open>AuthenticatedUser\<close>; at run time \<open>role\<close> is whatever string the
  user row carries.\<close>

record authenticated_user =
  au_id :: string
  au_tenantId :: string
  au_email :: string
  au_name :: string
  au_role :: string

text \<open>The part of a request the middleware and the routes read: the user that
  \<open>authenticate\<close> attaches, the outcome of \<open>jwtVerify\<close> (the token's \<open>userId\<close>, or
  \<open>None\<close> when verification throws) and the client address.\<close>

record request =
  user :: "authenticated_user option"
  jwt_userId :: "string option"
  ip :: string

text \<open>The guard built by \<open>requireRole(allowedRoles)\<close>. A hook that sends no reply
  returns \<open>None\<close> next to the request it leaves for the route handler.\<close>

definition requireRole :: "string list \<Rightarrow> request \<Rightarrow> request \<times> unit reply option" where
  "requireRole allowedRoles req =
     (case user req of
        None \<Rightarrow> (req, Some (Reply 401 (ErrorBody ''Authentication required'')))
      | Some u \<Rightarrow>
          if au_role u \<notin> set allowedRoles
          then (req, Some (Reply 403 (ErrorBody ''Insufficient permissions'')))
          else (req, None))"

section \<open>The mock database\<close>

record user_row =
  u_id :: string
  u_tenantId :: string
  u_email :: string
  u_name :: string
  u_role :: string
  u_isActive :: bool
  u_lastLoginAt :: "string option"
  u_createdAt :: string
  u_updatedAt :: string

record session_row =
  s_id :: string
  s_tenantId :: string
  s_agentId :: string
  s_customerId :: "string option"
  s_customerName :: "string option"
  s_status :: string
  s_sources :: jsval
  s_consentFlags :: jsval
  s_mediaUris :: jsval
  s_startedAt :: string
  s_endedAt :: "string option"
  s_duration :: "int option"
  s_createdAt :: string
  s_updatedAt :: string

record report_row =
  r_id :: string
  r_sessionId :: string
  r_tenantId :: string
  r_problem :: "string option"
  r_actions :: jsval
  r_result :: "string option"
  r_nextSteps :: jsval
  r_tags :: jsval
  r_timeline :: jsval
  r_redactions :: jsval
  r_editorChanges :: jsval
  r_isCustomerFacing :: bool
  r_templateId :: "string option"
  r_createdAt :: string
  r_updatedAt :: string

record event_row =
  e_id :: string
  e_sessionId :: string
  e_timestamp :: string
  e_type :: string
  e_payload :: jsval
  e_speakerTag :: "string option"
  e_confidence :: "int option"
  e_createdAt :: string

record audit_log_row =
  al_id :: string
  al_tenantId :: string
  al_userId :: "string option"
  al_action :: string
  al_resourceType :: "string option"
  al_resourceId :: "string option"
  al_ipAddress :: "string option"
  al_userAgent :: "string option"
  al_metadata :: jsval
  al_createdAt :: string

text \<open>The class \<open>MockDatabase\<close>: five arrays.\<close>

record mock_database =
  users :: "user_row list"
  sessions :: "session_row list"
  reports :: "report_row list"
  events :: "event_row list"
  auditLogs :: "audit_log_row list"

text \<open>The users that the constructor seeds (\<open>seedData\<close>, at time \<open>now\<close>); no method
  of the class adds or changes a user.\<close>

definition seedData_users :: "string \<Rightarrow> user_row list" where
  "seedData_users now =
     [\<lparr> u_id = ''user-1'', u_tenantId = ''demo-tenant-1'', u_email = ''admin@reportify.com'',
        u_name = ''Admin User'', u_role = ''admin'', u_isActive = True, u_lastLoginAt = None,
        u_createdAt = now, u_updatedAt = now \<rparr>,
      \<lparr> u_id = ''user-2'', u_tenantId = ''demo-tenant-1'', u_email = ''agent@reportify.com'',
        u_name = ''Agent Smith'', u_role = ''agent'', u_isActive = True, u_lastLoginAt = None,
        u_createdAt = now, u_updatedAt = now \<rparr>,
      \<lparr> u_id = ''user-3'', u_tenantId = ''demo-tenant-1'', u_email = ''manager@reportify.com'',
        u_name = ''Manager Johnson'', u_role = ''manager'', u_isActive = True, u_lastLoginAt = None,
        u_createdAt = now, u_updatedAt = now \<rparr>]"

definition findUserById :: "mock_database \<Rightarrow> string \<Rightarrow> user_row option" where
  "findUserById db uid = List.find (\<lambda>u. u_id u = uid) (users db)"

definition findSessionById :: "mock_database \<Rightarrow> string \<Rightarrow> session_row option" where
  "findSessionById db sid = List.find (\<lambda>s. s_id s = sid) (sessions db)"

definition findReportsByTenant :: "mock_database \<Rightarrow> string \<Rightarrow> report_row list" where
  "findReportsByTenant db tenantId = filter (\<lambda>r. r_tenantId r = tenantId) (reports db)"

definition findReportById :: "mock_database \<Rightarrow> string \<Rightarrow> report_row option" where
  "findReportById db rid = List.find (\<lambda>r. r_id r = rid) (reports db)"

text \<open>\<open>addAuditLog\<close> with the fields its callers here pass; it pushes the new log.\<close>

definition addAuditLog ::
  "clock \<Rightarrow> string \<Rightarrow> string option \<Rightarrow> string \<Rightarrow> string option \<Rightarrow> string option \<Rightarrow>
   string option \<Rightarrow> mock_database \<Rightarrow> mock_database" where
  "addAuditLog clk tenantId userId action resourceType resourceId ipAddress db =
     db \<lparr> auditLogs := auditLogs db @
       [\<lparr> al_id = ''audit-'' @ show_nat (now_ms clk), al_tenantId = tenantId, al_userId = userId,
          al_action = action, al_resourceType = resourceType, al_resourceId = resourceId,
          al_ipAddress = ipAddress, al_userAgent = None, al_metadata = JUndefined,
          al_createdAt = now_iso clk \<rparr>] \<rparr>"

text \<open>
  The hook \<open>authenticate\<close>: an invalid token and an unknown or inactive user are answered
  with 401; otherwise the user is attached to the request, with role \<open>agent\<close> when the
  row's role is empty.
\<close>

definition authenticate :: "mock_database \<Rightarrow> request \<Rightarrow> request \<times> unit reply option" where
  "authenticate db req =
     (case jwt_userId req of
        None \<Rightarrow> (req, Some (Reply 401 (ErrorBody ''Invalid token'')))
      | Some uid \<Rightarrow>
          (case findUserById db uid of
             None \<Rightarrow> (req, Some (Reply 401 (ErrorBody ''Invalid or inactive user'')))
           | Some u \<Rightarrow>
               if \<not> u_isActive u
               then (req, Some (Reply 401 (ErrorBody ''Invalid or inactive user'')))
               else (req \<lparr> user := Some \<lparr> au_id = u_id u, au_tenantId = u_tenantId u,
                                         au_email = u_email u, au_name = u_name u,
                                         au_role = (if u_role u = [] then ''agent'' else u_role u) \<rparr> \<rparr>,
                     None)))"

section \<open>The report routes\<close>

record agent_info =
  ag_id :: string
  ag_name :: string
  ag_email :: string

definition agent_of :: "mock_database \<Rightarrow> session_row \<Rightarrow> agent_info option" where
  "agent_of db s =
     map_option (\<lambda>agent. \<lparr> ag_id = u_id agent, ag_name = u_name agent, ag_email = u_email agent \<rparr>)
       (findUserById db (s_agentId s))"

text \<open>The session summary that \<open>GET /\<close> puts into each report.\<close>

record session_summary =
  ss_id :: string
  ss_customerId :: "string option"
  ss_customerName :: "string option"
  ss_startedAt :: string
  ss_endedAt :: "string option"
  ss_agent :: "agent_info option"

text \<open>\<open>{ ...report, session: ... }\<close>: the report's own fields and a field \<open>session\<close>.\<close>

record listed_report = report_row +
  lr_session :: "session_summary option"

record session_with_agent = session_row +
  sa_agent :: "agent_info option"

record viewed_report = report_row +
  vr_session :: "session_with_agent option"

text \<open>
  \<open>GET /api/reports\<close>. The handler runs after \<open>authenticate\<close>; read without a user,
  \<open>request.user!.tenantId\<close> throws and the \<open>catch\<close> answers 500.
\<close>

definition get_reports :: "mock_database \<Rightarrow> request \<Rightarrow> listed_report list reply" where
  "get_reports db req =
     (case user req of
        None \<Rightarrow> Reply 500 (ErrorBody ''Internal server error'')
      | Some u \<Rightarrow>
          (let reportList = findReportsByTenant db (au_tenantId u);
               enrichedReports = map (\<lambda>report.
                 report_row.extend report
                   \<lparr> lr_session =
                       map_option (\<lambda>session.
                         \<lparr> ss_id = s_id session, ss_customerId = s_customerId session,
                           ss_customerName = s_customerName session,
                           ss_startedAt = s_startedAt session, ss_endedAt = s_endedAt session,
                           ss_agent = agent_of db session \<rparr>)
                         (findSessionById db (r_sessionId report)) \<rparr>) reportList
           in Reply 200 (Data enrichedReports)))"

text \<open>\<open>GET /api/reports/:reportId\<close>: the reply, and the database with the access
  logged when a report was sent. The report is looked up first, so an unknown id is
  answered with 404 before \<open>request.user\<close> is read.\<close>

definition get_report ::
  "clock \<Rightarrow> mock_database \<Rightarrow> request \<Rightarrow> string \<Rightarrow> mock_database \<times> viewed_report reply" where
  "get_report clk db req reportId =
     (case findReportById db reportId of
        None \<Rightarrow> (db, Reply 404 (ErrorBody ''Report not found''))
      | Some report \<Rightarrow>
          (case user req of
             None \<Rightarrow> (db, Reply 500 (ErrorBody ''Internal server error''))
           | Some u \<Rightarrow>
               if r_tenantId report \<noteq> au_tenantId u
               then (db, Reply 404 (ErrorBody ''Report not found''))
               else
                 (let enrichedReport =
                        report_row.extend report
                          \<lparr> vr_session =
                              map_option (\<lambda>session.
                                session_row.extend session \<lparr> sa_agent = agent_of db session \<rparr>)
                                (findSessionById db (r_sessionId report)) \<rparr>
                  in (addAuditLog clk (au_tenantId u) (Some (au_id u)) ''report_viewed''
                        (Some ''report'') (Some reportId) (Some (ip req)) db,
                      Reply 200 (Data enrichedReport)))))"

section \<open>The report composer\<close>

text \<open>The interfaces \<open>Event\<close>, \<open>Session\<close> and \<open>PARNReport\<close> of the composer.\<close>

record cevent =
  ev_id :: string
  ev_timestamp :: js_date
  ev_type :: string
  ev_payload :: jsval
  ev_speakerTag :: "string option"
  ev_confidence :: "int option"

record csession =
  cs_id :: string
  cs_customerId :: "string option"
  cs_customerName :: "string option"
  cs_startedAt :: js_date
  cs_endedAt :: "js_date option"
  cs_events :: "cevent list"

record action_step =
  a_step :: nat
  a_description :: string
  a_timestamp :: "string option"

datatype priority = Low | Medium | High

record next_step =
  n_description :: string
  n_owner :: "string option"
  n_dueDate :: "string option"
  n_priority :: priority

record timeline_entry =
  tl_timestamp :: string
  tl_event :: string
  tl_details :: jsval

record parn_report =
  p_problem :: string
  p_actions :: "action_step list"
  p_result :: string
  p_nextSteps :: "next_step list"
  p_tags :: "string list"
  p_timeline :: "timeline_entry list"

text \<open>An element of \<open>uiEvents\<close>.\<close>

record ui_event =
  ui_timestamp :: js_date
  ui_action :: jsval
  ui_target :: jsval

definition extractProblem :: "jsval list \<Rightarrow> js_error + string" where
  "extractProblem earlyTranscripts =
     bind_err (js_join '' '' earlyTranscripts) (\<lambda>joined.
       let text = toLowerCase joined in
       Inr (if js_includes text ''wifi'' \<or> js_includes text ''wi-fi'' \<or> js_includes text ''network''
            then ''Customer experiencing WiFi connectivity issues.''
            else if js_includes text ''password'' \<or> js_includes text ''login'' \<or> js_includes text ''access''
            then ''Customer unable to access account due to authentication issues.''
            else if js_includes text ''printer'' \<or> js_includes text ''print''
            then ''Customer experiencing printer connectivity/functionality issues.''
            else if js_includes text ''slow'' \<or> js_includes text ''performance''
            then ''Customer reporting slow system performance.''
            else if js_includes text ''email'' \<or> js_includes text ''outlook''
            then ''Customer experiencing email client issues.''
            else ''Customer reported technical issue requiring assistance.''))"

text \<open>The \<open>switch\<close> on \<open>event.action\<close> that builds a description.\<close>

definition describe_action :: "ui_event \<Rightarrow> js_error + string" where
  "describe_action event =
     (if ui_action event = JStr ''click''
      then bind_err (to_string (ui_target event)) (\<lambda>t. Inr (''Clicked on '' @ t))
      else if ui_action event = JStr ''type''
      then bind_err (to_string (ui_target event)) (\<lambda>t. Inr (''Entered information in '' @ t))
      else if ui_action event = JStr ''navigate''
      then bind_err (to_string (ui_target event)) (\<lambda>t. Inr (''Navigated to '' @ t))
      else bind_err (to_string (ui_action event)) (\<lambda>a.
           bind_err (to_string (ui_target event)) (\<lambda>t. Inr (''Performed '' @ a @ '' on '' @ t))))"

text \<open>The body of the \<open>forEach\<close> over the events of index below 10, with the step
  number it starts from.\<close>

fun ui_actions :: "nat \<Rightarrow> ui_event list \<Rightarrow> js_error + action_step list" where
  "ui_actions stepNumber [] = Inr []"
| "ui_actions stepNumber (event # rest) =
     bind_err (describe_action event) (\<lambda>description.
     bind_err (toISOString (ui_timestamp event)) (\<lambda>isoString.
     bind_err (ui_actions (stepNumber + 1) rest) (\<lambda>more.
       Inr (\<lparr> a_step = stepNumber, a_description = description, a_timestamp = Some isoString \<rparr> # more))))"

definition generateActions :: "ui_event list \<Rightarrow> jsval list \<Rightarrow> js_error + action_step list" where
  "generateActions uiEvents transcripts =
     bind_err (ui_actions 1 (take 10 uiEvents)) (\<lambda>actions.
       Inr (if length actions = 0
            then [\<lparr> a_step = 1, a_description = ''Verified customer's current system status'',
                    a_timestamp = None \<rparr>,
                  \<lparr> a_step = 2, a_description = ''Gathered additional information about the issue'',
                    a_timestamp = None \<rparr>,
                  \<lparr> a_step = 3, a_description = ''Applied recommended troubleshooting steps'',
                    a_timestamp = None \<rparr>]
            else actions))"

definition extractResult :: "jsval list \<Rightarrow> js_error + string" where
  "extractResult lateTranscripts =
     bind_err (js_join '' '' lateTranscripts) (\<lambda>joined.
       let text = toLowerCase joined in
       Inr (if js_includes text ''working'' \<or> js_includes text ''fixed'' \<or> js_includes text ''resolved''
            then ''Issue successfully resolved. Customer confirmed functionality is restored.''
            else if js_includes text ''escalate'' \<or> js_includes text ''tier 2'' \<or> js_includes text ''specialist''
            then ''Issue requires escalation to specialist team for advanced troubleshooting.''
            else if js_includes text ''reboot'' \<or> js_includes text ''restart'' \<or> js_includes text ''later''
            then ''Applied initial troubleshooting steps. Customer to restart system and monitor.''
            else ''Troubleshooting steps completed. Customer to test and report back if issues persist.''))"

text \<open>
  \<open>generateNextSteps\<close>. \<open>day_after h\<close> is the date part of
  \<open>new Date(Date.now() + h * 60 * 60 * 1000).toISOString()\<close>, which the clock decides.
\<close>

definition generateNextSteps :: "(nat \<Rightarrow> string) \<Rightarrow> string \<Rightarrow> string \<Rightarrow> next_step list" where
  "generateNextSteps day_after problem result =
     (if js_includes result ''escalation'' \<or> js_includes result ''specialist''
      then [\<lparr> n_description = ''Escalate to Tier 2 support for advanced troubleshooting'',
              n_owner = Some ''T2 Queue'', n_dueDate = Some (day_after 24), n_priority = High \<rparr>]
      else if js_includes result ''resolved''
      then [\<lparr> n_description = ''Follow up with customer in 24 hours to ensure continued functionality'',
              n_owner = Some ''T1 Queue'', n_dueDate = Some (day_after 24), n_priority = Low \<rparr>]
      else [\<lparr> n_description = ''Monitor for customer callback within 48 hours'',
              n_owner = Some ''T1 Queue'', n_dueDate = Some (day_after 48), n_priority = Medium \<rparr>])"

text \<open>\<open>[...new Set(tags)]\<close>: the first occurrence of each tag, in order.\<close>

fun unique :: "string list \<Rightarrow> string list" where
  "unique [] = []"
| "unique (t # ts) = t # unique (filter (\<lambda>x. x \<noteq> t) ts)"

definition extractTags :: "jsval list \<Rightarrow> ui_event list \<Rightarrow> js_error + string list" where
  "extractTags transcripts uiEvents =
     bind_err (js_join '' '' transcripts) (\<lambda>joined.
       let text = toLowerCase joined in
       Inr (unique (
         (if js_includes text ''wifi'' \<or> js_includes text ''network'' then [''network''] else []) @
         (if js_includes text ''printer'' then [''printer''] else []) @
         (if js_includes text ''email'' \<or> js_includes text ''outlook'' then [''email''] else []) @
         (if js_includes text ''windows'' \<or> js_includes text ''mac'' then [''os''] else []) @
         (if js_includes text ''password'' \<or> js_includes text ''login'' then [''authentication''] else []) @
         (if js_includes text ''urgent'' \<or> js_includes text ''critical'' then [''high-priority''] else []) @
         (if js_includes text ''slow'' \<or> js_includes text ''performance'' then [''performance''] else []) @
         (if js_includes text ''resolved'' \<or> js_includes text ''fixed'' then [''resolved''] else []) @
         (if js_includes text ''escalate'' then [''escalated''] else []))))"

text \<open>\<open>s.replace('_', ' ')\<close>: the first underscore becomes a space.\<close>

fun replace_first_underscore :: "string \<Rightarrow> string" where
  "replace_first_underscore [] = []"
| "replace_first_underscore (c # cs) =
     (if c = CHR ''_'' then CHR '' '' # cs else c # replace_first_underscore cs)"

definition formatEventForTimeline :: "cevent \<Rightarrow> string" where
  "formatEventForTimeline event =
     (if ev_type event = ''asr_transcript''
      then (case ev_speakerTag event of
              None \<Rightarrow> ''Speaker''
            | Some tag \<Rightarrow> if tag = [] then ''Speaker'' else tag) @ '' spoke''
      else if ev_type event = ''ui_click'' then ''UI interaction''
      else if ev_type event = ''window_focus'' then ''Window changed''
      else replace_first_underscore (ev_type event))"

fun timeline_entries :: "cevent list \<Rightarrow> js_error + timeline_entry list" where
  "timeline_entries [] = Inr []"
| "timeline_entries (e # es) =
     bind_err (toISOString (ev_timestamp e)) (\<lambda>isoString.
     bind_err (timeline_entries es) (\<lambda>more.
       Inr (\<lparr> tl_timestamp = isoString, tl_event = formatEventForTimeline e,
              tl_details =
                (if truthy (get_field (ev_payload e) ''text'') then get_field (ev_payload e) ''text''
                 else if truthy (get_field (ev_payload e) ''target'') then get_field (ev_payload e) ''target''
                 else JUndefined) \<rparr> # more)))"

definition createTimeline :: "cevent list \<Rightarrow> js_error + timeline_entry list" where
  "createTimeline evs =
     timeline_entries
       (take 20 (filter (\<lambda>e. ev_type e \<in> set [''asr_transcript'', ''ui_click'', ''window_focus'']) evs))"

text \<open>\<open>generatePARNReport\<close>: \<open>Inl\<close> is the error that rejects the promise, \<open>Inr\<close> the
  report it resolves to.\<close>

definition generatePARNReport :: "(nat \<Rightarrow> string) \<Rightarrow> csession \<Rightarrow> js_error + parn_report" where
  "generatePARNReport day_after session =
     (let transcripts =
            filter truthy
              (map (\<lambda>e. get_field (ev_payload e) ''text'')
                 (filter (\<lambda>e. ev_type e = ''asr_transcript'') (cs_events session)));
          uiEvents =
            map (\<lambda>e. \<lparr> ui_timestamp = ev_timestamp e,
                        ui_action = (if truthy (get_field (ev_payload e) ''action'')
                                     then get_field (ev_payload e) ''action''
                                     else JStr ''Unknown action''),
                        ui_target = (if truthy (get_field (ev_payload e) ''target'')
                                     then get_field (ev_payload e) ''target''
                                     else JStr ''Unknown target'') \<rparr>)
              (filter (\<lambda>e. prefix ''ui_'' (ev_type e)) (cs_events session))
      in bind_err (extractProblem (take 5 transcripts)) (\<lambda>problem.
         bind_err (generateActions uiEvents transcripts) (\<lambda>actions.
         bind_err (extractResult (drop (length transcripts - 3) transcripts)) (\<lambda>result.
         let nextSteps = generateNextSteps day_after problem result in
         bind_err (extractTags transcripts uiEvents) (\<lambda>tags.
         bind_err (createTimeline (cs_events session)) (\<lambda>timeline.
           Inr \<lparr> p_problem = problem, p_actions = actions, p_result = result,
                 p_nextSteps = nextSteps, p_tags = tags, p_timeline = timeline \<rparr>))))))"

text \<open>
  Events on which no conversion of the composer throws: the timestamp is a valid date,
  and the payload's \<open>text\<close>, \<open>action\<close> and \<open>target\<close> hold no object with an own
  property \<open>toString\<close>.
\<close>

fun printable :: "jsval \<Rightarrow> bool" where
  "printable (JArr xs) = list_all printable xs"
| "printable (JObj kvs) = (''toString'' \<notin> set (map fst kvs))"
| "printable _ = True"

definition plain_event :: "cevent \<Rightarrow> bool" where
  "plain_event e =
     (ev_timestamp e \<noteq> InvalidDate \<and>
      printable (get_field (ev_payload e) ''text'') \<and>
      printable (get_field (ev_payload e) ''action'') \<and>
      printable (get_field (ev_payload e) ''target''))"

section \<open>Routes that call the ORM on the mock database\<close>

text \<open>
  The modules of the report routes and of the session routes bind \<open>db\<close> to the mock
  database (\<open>import { mockDb as db } from '../database/mock-db'\<close>). Their handlers
  \<open>GET /\<close> and \<open>GET /:reportId\<close> call its methods. The handlers below still reach
  the database through \<open>db.query\<close>, \<open>db.insert\<close> and \<open>db.update\<close>, members of the
  ORM's database object that \<open>MockDatabase\<close> does not have (and through \<open>and\<close>,
  \<open>eq\<close> and the table objects, which the modules do not import). So \<open>db.query\<close> is
  \<open>undefined\<close>, and the first statement that touches the database,
  \<open>db.query.sessions.findFirst(\<dots>)\<close>, throws a \<open>TypeError\<close> that the handler's
  \<open>catch\<close> answers with 500. Each handler is modelled twice: as it runs in its module,
  and as its statements read against an ORM database over the same tables (the reading
  under which the export routes below run).
\<close>

definition findReportBySessionId :: "mock_database \<Rightarrow> string \<Rightarrow> report_row option" where
  "findReportBySessionId db sid = List.find (\<lambda>r. r_sessionId r = sid) (reports db)"

text \<open>\<open>POST /api/reports/:sessionId/generate\<close>, as it runs.\<close>

definition generate_report :: "mock_database \<Rightarrow> request \<Rightarrow> string \<Rightarrow> mock_database \<times> report_row reply" where
  "generate_report db req sessionId = (db, Reply 500 (ErrorBody ''Failed to generate report''))"

text \<open>What \<open>addEventSchema.parse\<close> returns for a valid body.\<close>

record add_event_data =
  ae_timestamp :: string
  ae_type :: string
  ae_payload :: jsval
  ae_speakerTag :: "string option"
  ae_confidence :: "int option"

text \<open>\<open>POST /api/sessions/:sessionId/events\<close>, as it runs: the body is parsed before
  the database is touched, so an invalid body is answered with 400.\<close>

definition add_event ::
  "mock_database \<Rightarrow> request \<Rightarrow> string \<Rightarrow> string + add_event_data \<Rightarrow> mock_database \<times> event_row reply" where
  "add_event db req sessionId parsed =
     (case parsed of
        Inl details \<Rightarrow> (db, Reply 400 (ErrorDetails ''Validation error'' details))
      | Inr eventData \<Rightarrow> (db, Reply 500 (ErrorBody ''Internal server error'')))"

subsection \<open>The same handlers, read against an ORM database\<close>

text \<open>The JSON columns of a report, from the composer's report.\<close>

definition js_opt :: "string option \<Rightarrow> (string \<times> jsval) list \<Rightarrow> string \<Rightarrow> (string \<times> jsval) list" where
  "js_opt v kvs k = (case v of None \<Rightarrow> kvs | Some x \<Rightarrow> kvs @ [(k, JStr x)])"

definition action_js :: "action_step \<Rightarrow> jsval" where
  "action_js a =
     JObj (js_opt (a_timestamp a)
             [(''step'', JNum (show_nat (a_step a))), (''description'', JStr (a_description a))]
             ''timestamp'')"

definition priority_str :: "priority \<Rightarrow> string" where
  "priority_str p = (case p of Low \<Rightarrow> ''low'' | Medium \<Rightarrow> ''medium'' | High \<Rightarrow> ''high'')"

definition next_step_js :: "next_step \<Rightarrow> jsval" where
  "next_step_js n =
     JObj (js_opt (n_dueDate n) (js_opt (n_owner n) [(''description'', JStr (n_description n))] ''owner'')
             ''dueDate'' @ [(''priority'', JStr (priority_str (n_priority n)))])"

definition timeline_js :: "timeline_entry \<Rightarrow> jsval" where
  "timeline_js e =
     JObj ([(''timestamp'', JStr (tl_timestamp e)), (''event'', JStr (tl_event e))] @
           (if tl_details e = JUndefined then [] else [(''details'', tl_details e)]))"

text \<open>The session that \<open>findFirst\<close> returns with its events, as the composer reads it;
  the dates of rows read from the database are valid.\<close>

definition session_with_events :: "mock_database \<Rightarrow> session_row \<Rightarrow> csession" where
  "session_with_events db s =
     \<lparr> cs_id = s_id s, cs_customerId = s_customerId s, cs_customerName = s_customerName s,
       cs_startedAt = Date (s_startedAt s), cs_endedAt = map_option Date (s_endedAt s),
       cs_events =
         map (\<lambda>e. \<lparr> ev_id = e_id e, ev_timestamp = Date (e_timestamp e), ev_type = e_type e,
                     ev_payload = e_payload e, ev_speakerTag = e_speakerTag e,
                     ev_confidence = e_confidence e \<rparr>)
           (filter (\<lambda>e. e_sessionId e = s_id s) (events db)) \<rparr>"

definition generate_report_orm ::
  "clock \<Rightarrow> (nat \<Rightarrow> string) \<Rightarrow> string \<Rightarrow> string \<Rightarrow> mock_database \<Rightarrow> request \<Rightarrow> string \<Rightarrow>
   mock_database \<times> report_row reply" where
  "generate_report_orm clk day_after newReportId newAuditId db req sessionId =
     (case user req of
        None \<Rightarrow> (db, Reply 500 (ErrorBody ''Failed to generate report''))
      | Some u \<Rightarrow>
     (case List.find (\<lambda>s. s_id s = sessionId \<and> s_tenantId s = au_tenantId u) (sessions db) of
        None \<Rightarrow> (db, Reply 404 (ErrorBody ''Session not found''))
      | Some session \<Rightarrow>
     (case List.find (\<lambda>r. r_sessionId r = sessionId) (reports db) of
        Some existingReport \<Rightarrow> (db, Reply 200 (Data existingReport))
      | None \<Rightarrow>
     (case generatePARNReport day_after (session_with_events db session) of
        Inl err \<Rightarrow> (db, Reply 500 (ErrorBody ''Failed to generate report''))
      | Inr reportData \<Rightarrow>
          if newReportId \<in> set (map r_id (reports db))
          then (db, Reply 500 (ErrorBody ''Failed to generate report''))
          else
            (let report =
                   \<lparr> r_id = newReportId, r_sessionId = sessionId, r_tenantId = au_tenantId u,
                     r_problem = Some (p_problem reportData),
                     r_actions = JArr (map action_js (p_actions reportData)),
                     r_result = Some (p_result reportData),
                     r_nextSteps = JArr (map next_step_js (p_nextSteps reportData)),
                     r_tags = JArr (map JStr (p_tags reportData)),
                     r_timeline = JArr (map timeline_js (p_timeline reportData)),
                     r_redactions = JNull, r_editorChanges = JNull, r_isCustomerFacing = False,
                     r_templateId = None, r_createdAt = now_iso clk, r_updatedAt = now_iso clk \<rparr>;
                 db1 = db \<lparr> reports := reports db @ [report] \<rparr>;
                 db2 = db1 \<lparr> sessions := map (\<lambda>s. if s_id s = sessionId
                                  then s \<lparr> s_status := ''completed'', s_updatedAt := now_iso clk \<rparr>
                                  else s) (sessions db1) \<rparr>
             in if newAuditId \<in> set (map al_id (auditLogs db2))
                then (db2, Reply 500 (ErrorBody ''Failed to generate report''))
                else
                  (db2 \<lparr> auditLogs := auditLogs db2 @
                      [\<lparr> al_id = newAuditId, al_tenantId = au_tenantId u, al_userId = Some (au_id u),
                         al_action = ''report_generated'', al_resourceType = Some ''report'',
                         al_resourceId = Some (r_id report), al_ipAddress = Some (ip req),
                         al_userAgent = None, al_metadata = JObj [(''sessionId'', JStr sessionId)],
                         al_createdAt = now_iso clk \<rparr>] \<rparr>,
                   Reply 200 (Data report)))))))"

definition add_event_orm ::
  "clock \<Rightarrow> string \<Rightarrow> mock_database \<Rightarrow> request \<Rightarrow> string \<Rightarrow> string + add_event_data \<Rightarrow>
   mock_database \<times> event_row reply" where
  "add_event_orm clk newEventId db req sessionId parsed =
     (case parsed of
        Inl details \<Rightarrow> (db, Reply 400 (ErrorDetails ''Validation error'' details))
      | Inr eventData \<Rightarrow>
     (case user req of
        None \<Rightarrow> (db, Reply 500 (ErrorBody ''Internal server error''))
      | Some u \<Rightarrow>
     (case List.find (\<lambda>s. s_id s = sessionId \<and> s_tenantId s = au_tenantId u) (sessions db) of
        None \<Rightarrow> (db, Reply 404 (ErrorBody ''Session not found''))
      | Some session \<Rightarrow>
          if s_status session \<noteq> ''recording''
          then (db, Reply 400 (ErrorBody ''Session is not in recording state''))
          else if newEventId \<in> set (map e_id (events db))
          then (db, Reply 500 (ErrorBody ''Internal server error''))
          else
            (let event =
                   \<lparr> e_id = newEventId, e_sessionId = sessionId, e_timestamp = ae_timestamp eventData,
                     e_type = ae_type eventData, e_payload = ae_payload eventData,
                     e_speakerTag = ae_speakerTag eventData, e_confidence = ae_confidence eventData,
                     e_createdAt = now_iso clk \<rparr>
             in (db \<lparr> events := events db @ [event] \<rparr>, Reply 200 (Data event))))))"

section \<open>The export routes\<close>

text \<open>
  These routes use the ORM database object of the database package, a Postgres
  database with the schema of that package, in which every id column has the type
  \<open>uuid\<close>. Its tables are modelled as the lists of their rows, a uuid column holding the
  text that the database prints for the value. A string that a statement compares with
  a uuid column, or stores in one, is read by the database's uuid input, and the
  statement throws when the string is not a uuid. \<open>findFirst\<close> is the first row that
  satisfies the condition; \<open>insert \<dots> returning\<close> appends the row with its defaults
  filled in, and throws when the primary key is taken, when a foreign key has no row to
  refer to or when a string is longer than its \<open>varchar\<close> column; \<open>update \<dots> where\<close>
  rewrites every row that satisfies the condition. A failing connection, which makes a
  statement throw as well, is not modelled.

  The hook of these routes is \<open>authenticate\<close>, which attaches a user row of the mock
  database.
\<close>

definition is_hex :: "char \<Rightarrow> bool" where
  "is_hex c = (c \<in> set ''0123456789abcdefABCDEF'')"

text \<open>
  The uuid input of the database: sixteen pairs of hexadecimal digits, with a hyphen
  allowed after every second pair but the last, the whole optionally in braces.
  \<open>hex_pairs n src\<close> reads the last \<open>n\<close> pairs and returns their digits in lower case
  with the rest of the string. The value is printed as groups of eight, four, four,
  four and twelve digits.
\<close>

fun hex_pairs :: "nat \<Rightarrow> string \<Rightarrow> (string \<times> string) option" where
  "hex_pairs 0 src = Some ([], src)"
| "hex_pairs (Suc n) (a # b # src) =
     (if is_hex a \<and> is_hex b
      then map_option (\<lambda>(digits, rest). (lower_char a # lower_char b # digits, rest))
             (hex_pairs n (if even n \<and> 0 < n \<and> src \<noteq> [] \<and> hd src = CHR ''-''
                           then tl src else src))
      else None)"
| "hex_pairs (Suc n) src = None"

definition uuid_out :: "string \<Rightarrow> string" where
  "uuid_out digits =
     take 8 digits @ ''-'' @ take 4 (drop 8 digits) @ ''-'' @ take 4 (drop 12 digits) @ ''-'' @
     take 4 (drop 16 digits) @ ''-'' @ drop 20 digits"

definition uuid_in :: "string \<Rightarrow> string option" where
  "uuid_in source =
     (let braces = (source \<noteq> [] \<and> hd source = CHR ''{'')
      in case hex_pairs 16 (if braces then tl source else source) of
           None \<Rightarrow> None
         | Some (digits, rest) \<Rightarrow>
             if rest = (if braces then ''}'' else []) then Some (uuid_out digits) else None)"

datatype export_status = XPending | XProcessing | XCompleted | XFailed

datatype export_target = ServiceNow | Jira | Zendesk | TargetPdf | TargetDocx | TargetMarkdown

datatype export_format = FormatPdf | FormatDocx | FormatMarkdown | FormatJson

fun format_str :: "export_format \<Rightarrow> string" where
  "format_str FormatPdf = ''pdf''"
| "format_str FormatDocx = ''docx''"
| "format_str FormatMarkdown = ''markdown''"
| "format_str FormatJson = ''json''"

fun target_str :: "export_target \<Rightarrow> string" where
  "target_str ServiceNow = ''servicenow''"
| "target_str Jira = ''jira''"
| "target_str Zendesk = ''zendesk''"
| "target_str TargetPdf = ''pdf''"
| "target_str TargetDocx = ''docx''"
| "target_str TargetMarkdown = ''markdown''"

text \<open>What \<open>createExportSchema.parse\<close> returns for a valid body.\<close>

record create_export_data =
  ce_reportId :: string
  ce_target :: export_target
  ce_format :: export_format
  ce_template :: "string option"
  ce_fieldMapping :: "(string \<times> string) list option"

text \<open>
  The checks of \<open>createExportSchema\<close>, each on the property of the body it reads
  (\<open>None\<close> for a property that is absent); a check that fails gives \<open>None\<close>.
  \<open>z.string().uuid()\<close> is taken in the validator's form of eight, four, four, four and
  twelve hexadecimal digits between hyphens; a release of the validator that also
  restricts the version and variant digits rejects more bodies, with the same reply.
\<close>

definition zod_uuid :: "string \<Rightarrow> bool" where
  "zod_uuid s =
     (length s = 36 \<and>
      list_all (\<lambda>i. if i \<in> set [8, 13, 18, 23] then s ! i = CHR ''-'' else is_hex (s ! i)) [0..<36])"

definition parse_target :: "jsval option \<Rightarrow> export_target option" where
  "parse_target v =
     (case v of
        Some (JStr s) \<Rightarrow>
          map_of [(''servicenow'', ServiceNow), (''jira'', Jira), (''zendesk'', Zendesk),
                  (''pdf'', TargetPdf), (''docx'', TargetDocx), (''markdown'', TargetMarkdown)] s
      | _ \<Rightarrow> None)"

definition parse_format :: "jsval option \<Rightarrow> export_format option" where
  "parse_format v =
     (case v of
        Some (JStr s) \<Rightarrow>
          map_of [(''pdf'', FormatPdf), (''docx'', FormatDocx), (''markdown'', FormatMarkdown),
                  (''json'', FormatJson)] s
      | _ \<Rightarrow> None)"

text \<open>\<open>z.string().optional()\<close> and \<open>z.record(z.string()).optional()\<close>: the outer
  \<open>Some\<close> says that the check passed.\<close>

definition optional_string :: "jsval option \<Rightarrow> string option option" where
  "optional_string v =
     (case v of
        None \<Rightarrow> Some None
      | Some JUndefined \<Rightarrow> Some None
      | Some (JStr s) \<Rightarrow> Some (Some s)
      | _ \<Rightarrow> None)"

definition optional_record :: "jsval option \<Rightarrow> (string \<times> string) list option option" where
  "optional_record v =
     (case v of
        None \<Rightarrow> Some None
      | Some JUndefined \<Rightarrow> Some None
      | Some (JObj kvs) \<Rightarrow>
          map_option Some
            (those (map (\<lambda>(k, x). case x of JStr s \<Rightarrow> Some (k, s) | _ \<Rightarrow> None) kvs))
      | _ \<Rightarrow> None)"

text \<open>\<open>createExportSchema.parse(request.body)\<close>: the data, or \<open>None\<close> when it throws
  a \<open>ZodError\<close>.\<close>

definition createExportSchema_parse :: "jsval \<Rightarrow> create_export_data option" where
  "createExportSchema_parse requestBody =
     (case requestBody of
        JObj kvs \<Rightarrow>
          (case map_of kvs ''reportId'' of
             Some (JStr reportId) \<Rightarrow>
               (case parse_target (map_of kvs ''target'') of
                  None \<Rightarrow> None
                | Some target \<Rightarrow>
               (case parse_format (map_of kvs ''format'') of
                  None \<Rightarrow> None
                | Some format \<Rightarrow>
               (case optional_string (map_of kvs ''template'') of
                  None \<Rightarrow> None
                | Some template \<Rightarrow>
               (case optional_record (map_of kvs ''fieldMapping'') of
                  None \<Rightarrow> None
                | Some fieldMapping \<Rightarrow>
                    if zod_uuid reportId
                    then Some \<lparr> ce_reportId = reportId, ce_target = target, ce_format = format,
                                ce_template = template, ce_fieldMapping = fieldMapping \<rparr>
                    else None))))
           | _ \<Rightarrow> None)
      | _ \<Rightarrow> None)"

record export_metadata =
  em_template :: "string option"
  em_fieldMapping :: "(string \<times> string) list option"

record export_row =
  x_id :: string
  x_reportId :: string
  x_tenantId :: string
  x_userId :: string
  x_target :: export_target
  x_format :: export_format
  x_status :: export_status
  x_externalId :: "string option"
  x_deepLink :: "string option"
  x_errorMessage :: "string option"
  x_metadata :: export_metadata
  x_createdAt :: string
  x_updatedAt :: string

text \<open>The tables these routes touch; of \<open>tenants\<close> and \<open>users\<close>, which the foreign
  keys refer to, the ids of the rows.\<close>

record orm_database =
  orm_tenants :: "string list"
  orm_users :: "string list"
  orm_reports :: "report_row list"
  orm_exports :: "export_row list"
  orm_auditLogs :: "audit_log_row list"

text \<open>The closure that \<open>setTimeout\<close> is given: the id of the export, its report and
  the export's configuration.\<close>

record export_task =
  t_exportId :: string
  t_report :: report_row
  t_data :: create_export_data

text \<open>
  The random draws of \<open>processExport\<close>: \<open>Math.random().toString().substr(2, 7)\<close> and
  the values of \<open>Math.floor(Math.random() * n)\<close> in the order they are taken.
\<close>

record export_draws =
  inc_digits :: string
  draw1 :: nat
  draw2 :: nat

record export_result =
  externalId :: string
  deepLink :: string

text \<open>\<open>processExport\<close>. \<open>Inl\<close> would carry the message of an error it throws; none of
  its four branches throws.\<close>

definition processExport ::
  "string \<Rightarrow> report_row \<Rightarrow> create_export_data \<Rightarrow> export_draws \<Rightarrow> string + export_result" where
  "processExport exportId report config rnd =
     (case ce_target config of
        ServiceNow \<Rightarrow>
          Inr \<lparr> externalId = ''INC'' @ inc_digits rnd,
                deepLink = ''https://instance.service-now.com/nav_to.do?uri=incident.do?sys_id='' @ exportId \<rparr>
      | Jira \<Rightarrow>
          Inr \<lparr> externalId = ''HELP-'' @ show_nat (draw1 rnd),
                deepLink = ''https://company.atlassian.net/browse/HELP-'' @ show_nat (draw2 rnd) \<rparr>
      | Zendesk \<Rightarrow>
          Inr \<lparr> externalId = show_nat (draw1 rnd),
                deepLink = ''https://company.zendesk.com/agent/tickets/'' @ show_nat (draw2 rnd) \<rparr>
      | _ \<Rightarrow>
          Inr \<lparr> externalId = ''file_'' @ exportId @ ''.'' @ format_str (ce_format config),
                deepLink = ''https://storage.reportify.com/exports/'' @ exportId @ ''.'' @
                           format_str (ce_format config) \<rparr>)"

definition update_exports :: "string \<Rightarrow> (export_row \<Rightarrow> export_row) \<Rightarrow> orm_database \<Rightarrow> orm_database" where
  "update_exports exportId f db =
     db \<lparr> orm_exports := map (\<lambda>x. if x_id x = exportId then f x else x) (orm_exports db) \<rparr>"

text \<open>The deferred step: the function given to \<open>setTimeout\<close>, run at time \<open>now\<close> on the
  database as it is then.\<close>

definition export_timer :: "export_draws \<Rightarrow> string \<Rightarrow> export_task \<Rightarrow> orm_database \<Rightarrow> orm_database" where
  "export_timer rnd now task db =
     (case processExport (t_exportId task) (t_report task) (t_data task) rnd of
        Inr result \<Rightarrow>
          update_exports (t_exportId task)
            (\<lambda>x. x \<lparr> x_status := XCompleted, x_externalId := Some (externalId result),
                      x_deepLink := Some (deepLink result), x_updatedAt := now \<rparr>) db
      | Inl message \<Rightarrow>
          update_exports (t_exportId task)
            (\<lambda>x. x \<lparr> x_status := XFailed, x_errorMessage := Some message, x_updatedAt := now \<rparr>) db)"

text \<open>
  The handler of \<open>POST /api/exports\<close>, which runs on the request that the hook has
  passed. The arguments are the clock, the ids the database draws for the export and
  for the audit log, the database, the request, what the validator reports when the
  body is invalid, and the body. The result is the database, the reply and the task
  handed to \<open>setTimeout\<close>, if any.

  The first statement after the parse, \<open>findFirst\<close> on \<open>reports\<close>, compares the uuid
  columns \<open>id\<close> and \<open>tenant_id\<close> with \<open>data.reportId\<close> and \<open>request.user.tenantId\<close>;
  the insert into \<open>exports\<close> stores these and \<open>request.user.id\<close> in uuid columns with
  foreign keys; the insert into \<open>audit_logs\<close> stores \<open>request.ip\<close> in a
  \<open>varchar(45)\<close>. Whatever a statement throws is answered with 500.
\<close>

definition create_export ::
  "clock \<Rightarrow> string \<Rightarrow> string \<Rightarrow> orm_database \<Rightarrow> request \<Rightarrow> string \<Rightarrow> jsval \<Rightarrow>
   orm_database \<times> export_row reply \<times> export_task option" where
  "create_export clk newExportId newAuditId db req issues requestBody =
     (case createExportSchema_parse requestBody of
        None \<Rightarrow> (db, Reply 400 (ErrorDetails ''Validation error'' issues), None)
      | Some d \<Rightarrow>
     (case user req of
        None \<Rightarrow> (db, Reply 500 (ErrorBody ''Internal server error''), None)
      | Some u \<Rightarrow>
     (case uuid_in (ce_reportId d) of
        None \<Rightarrow> (db, Reply 500 (ErrorBody ''Internal server error''), None)
      | Some reportId \<Rightarrow>
     (case uuid_in (au_tenantId u) of
        None \<Rightarrow> (db, Reply 500 (ErrorBody ''Internal server error''), None)
      | Some tenantId \<Rightarrow>
     (case List.find (\<lambda>r. r_id r = reportId \<and> r_tenantId r = tenantId) (orm_reports db) of
        None \<Rightarrow> (db, Reply 404 (ErrorBody ''Report not found''), None)
      | Some report \<Rightarrow>
     (case uuid_in (au_id u) of
        None \<Rightarrow> (db, Reply 500 (ErrorBody ''Internal server error''), None)
      | Some userId \<Rightarrow>
          if newExportId \<in> set (map x_id (orm_exports db)) \<or>
             tenantId \<notin> set (orm_tenants db) \<or> userId \<notin> set (orm_users db)
          then (db, Reply 500 (ErrorBody ''Internal server error''), None)
          else
            (let exportRecord =
                   \<lparr> x_id = newExportId, x_reportId = reportId, x_tenantId = tenantId,
                     x_userId = userId, x_target = ce_target d, x_format = ce_format d,
                     x_status = XPending, x_externalId = None, x_deepLink = None,
                     x_errorMessage = None,
                     x_metadata = \<lparr> em_template = ce_template d, em_fieldMapping = ce_fieldMapping d \<rparr>,
                     x_createdAt = now_iso clk, x_updatedAt = now_iso clk \<rparr>;
                 db1 = db \<lparr> orm_exports := orm_exports db @ [exportRecord] \<rparr>;
                 task = \<lparr> t_exportId = x_id exportRecord, t_report = report, t_data = d \<rparr>
             in if newAuditId \<in> set (map al_id (orm_auditLogs db1)) \<or> 45 < length (ip req)
                then (db1, Reply 500 (ErrorBody ''Internal server error''), Some task)
                else
                  (db1 \<lparr> orm_auditLogs := orm_auditLogs db1 @
                      [\<lparr> al_id = newAuditId, al_tenantId = tenantId, al_userId = Some userId,
                         al_action = ''export_created'', al_resourceType = Some ''export'',
                         al_resourceId = Some (x_id exportRecord), al_ipAddress = Some (ip req),
                         al_userAgent = None,
                         al_metadata = JObj [(''reportId'', JStr (ce_reportId d)),
                                             (''target'', JStr (target_str (ce_target d)))],
                         al_createdAt = now_iso clk \<rparr>] \<rparr>,
                   Reply 200 (Data exportRecord), Some task))))))))"

text \<open>The two end states the deferred step can leave an export in.\<close>

definition export_completed :: "export_row \<Rightarrow> bool" where
  "export_completed x = (x_status x = XCompleted \<and> x_externalId x \<noteq> None \<and> x_deepLink x \<noteq> None)"

definition export_failed :: "export_row \<Rightarrow> bool" where
  "export_failed x = (x_status x = XFailed \<and> x_errorMessage x \<noteq> None)"

section \<open>Regular expressions\<close>

text \<open>
  The part of the regular expression language that the four PII patterns use: a
  character class, the word boundary \<open>\b\<close>, sequence, the greedy option \<open>r?\<close>, and a
  class repeated greedily \<open>{n}\<close>, \<open>{n,}\<close>, \<open>+\<close> (\<open>Repeat n (Some n)\<close>,
  \<open>Repeat n None\<close>, \<open>Repeat 1 None\<close>).
\<close>

datatype regex =
    Cls "char \<Rightarrow> bool"
  | Bnd
  | Seq regex regex
  | Opt regex
  | Repeat nat "nat option" "char \<Rightarrow> bool"

definition is_digit :: "char \<Rightarrow> bool" where
  "is_digit c = (48 \<le> (of_char c :: nat) \<and> (of_char c :: nat) \<le> 57)"

definition is_letter :: "char \<Rightarrow> bool" where
  "is_letter c = ((65 \<le> (of_char c :: nat) \<and> (of_char c :: nat) \<le> 90) \<or>
                  (97 \<le> (of_char c :: nat) \<and> (of_char c :: nat) \<le> 122))"

text \<open>\<open>\w\<close> and, on the code units up to U+00FF, \<open>\s\<close>.\<close>

definition is_word :: "char \<Rightarrow> bool" where
  "is_word c = (is_letter c \<or> is_digit c \<or> c = CHR ''_'')"

definition is_space :: "char \<Rightarrow> bool" where
  "is_space c = ((of_char c :: nat) \<in> set [9, 10, 11, 12, 13, 32, 160])"

text \<open>The assertion \<open>\b\<close> at position \<open>i\<close>: exactly one of the characters before and
  after the position is a word character.\<close>

definition boundary :: "string \<Rightarrow> nat \<Rightarrow> bool" where
  "boundary s i =
     ((0 < i \<and> i \<le> length s \<and> is_word (s ! (i - 1))) \<noteq> (i < length s \<and> is_word (s ! i)))"

text \<open>
  The backtracking matcher, as the list of the positions at which a match of \<open>r\<close> that
  starts at \<open>i\<close> can end, in the order in which backtracking tries them. The match that
  \<open>exec\<close> reports at \<open>i\<close> ends at the first of them.
\<close>

fun ends :: "regex \<Rightarrow> string \<Rightarrow> nat \<Rightarrow> nat list" where
  "ends (Cls p) s i = (if i < length s \<and> p (s ! i) then [Suc i] else [])"
| "ends Bnd s i = (if boundary s i then [i] else [])"
| "ends (Seq a b) s i = concat (map (ends b s) (ends a s i))"
| "ends (Opt a) s i = ends a s i @ [i]"
| "ends (Repeat n mx p) s i =
     (let run = length (takeWhile p (drop i s));
          hi = (case mx of None \<Rightarrow> run | Some h \<Rightarrow> min h run)
      in map (\<lambda>k. i + k) (rev [n ..< Suc hi]))"

text \<open>
  \<open>transcript.matchAll(pattern)\<close> for a pattern with the flag \<open>g\<close>: the positions are
  tried from left to right; a match moves \<open>lastIndex\<close> to its end (one further when
  the match is empty), and positions before \<open>lastIndex\<close> are not tried again. A match
  is the pair of its start and its end.
\<close>

fun scan :: "regex \<Rightarrow> string \<Rightarrow> nat list \<Rightarrow> nat \<Rightarrow> (nat \<times> nat) list" where
  "scan r s [] lastIndex = []"
| "scan r s (i # positions) lastIndex =
     (if i < lastIndex then scan r s positions lastIndex
      else (case ends r s i of
              [] \<Rightarrow> scan r s positions lastIndex
            | e # _ \<Rightarrow> (i, e) # scan r s positions (if e = i then e + 1 else e)))"

definition matchAll :: "regex \<Rightarrow> string \<Rightarrow> (nat \<times> nat) list" where
  "matchAll r s = scan r s [0 ..< Suc (length s)] 0"

text \<open>What it means for the pattern to match the substring from \<open>i\<close> to \<open>j\<close> of
  \<open>s\<close>, whatever the matcher tries first.\<close>

inductive matches :: "regex \<Rightarrow> string \<Rightarrow> nat \<Rightarrow> nat \<Rightarrow> bool" where
  m_cls: "i < length s \<Longrightarrow> p (s ! i) \<Longrightarrow> matches (Cls p) s i (Suc i)"
| m_bnd: "boundary s i \<Longrightarrow> matches Bnd s i i"
| m_seq: "matches a s i j \<Longrightarrow> matches b s j k \<Longrightarrow> matches (Seq a b) s i k"
| m_opt_some: "matches a s i j \<Longrightarrow> matches (Opt a) s i j"
| m_opt_none: "matches (Opt a) s i i"
| m_repeat: "n \<le> k \<Longrightarrow> (case mx of None \<Rightarrow> True | Some h \<Rightarrow> k \<le> h) \<Longrightarrow>
             i + k \<le> length s \<Longrightarrow> list_all p (take k (drop i s)) \<Longrightarrow>
             matches (Repeat n mx p) s i (i + k)"

inductive_cases matches_ClsE: "matches (Cls p) s i j"
inductive_cases matches_BndE: "matches Bnd s i j"
inductive_cases matches_SeqE: "matches (Seq a b) s i k"
inductive_cases matches_OptE: "matches (Opt a) s i j"
inductive_cases matches_RepeatE: "matches (Repeat n mx p) s i j"

text \<open>The least number of characters a match of the pattern takes.\<close>

fun min_len :: "regex \<Rightarrow> nat" where
  "min_len (Cls p) = 1"
| "min_len Bnd = 0"
| "min_len (Seq a b) = min_len a + min_len b"
| "min_len (Opt a) = 0"
| "min_len (Repeat n mx p) = n"

section \<open>The ASR processor\<close>

definition seq :: "regex list \<Rightarrow> regex" where
  "seq rs = foldr Seq (butlast rs) (last rs)"

definition one_of :: "string \<Rightarrow> char \<Rightarrow> bool" where
  "one_of cs c = (c \<in> set cs)"

text \<open>The four patterns of \<open>piiPatterns\<close>, in the order of the \<open>Map\<close>.\<close>

definition email_pattern :: regex where
  "email_pattern =
     seq [Bnd,
          Repeat 1 None (\<lambda>c. is_letter c \<or> is_digit c \<or> one_of ''._%+-'' c),
          Cls (one_of ''@''),
          Repeat 1 None (\<lambda>c. is_letter c \<or> is_digit c \<or> one_of ''.-'' c),
          Cls (one_of ''.''),
          Repeat 2 None (\<lambda>c. is_letter c \<or> one_of ''|'' c),
          Bnd]"

definition phone_pattern :: regex where
  "phone_pattern =
     seq [Bnd,
          Opt (seq [Opt (Cls (one_of ''+'')), Cls (one_of ''1''),
                    Opt (Cls (\<lambda>c. one_of ''-.'' c \<or> is_space c))]),
          Opt (Cls (one_of ''('')),
          Repeat 3 (Some 3) is_digit,
          Opt (Cls (one_of '')'')),
          Opt (Cls (\<lambda>c. one_of ''-.'' c \<or> is_space c)),
          Repeat 3 (Some 3) is_digit,
          Opt (Cls (\<lambda>c. one_of ''-.'' c \<or> is_space c)),
          Repeat 4 (Some 4) is_digit,
          Bnd]"

definition ssn_pattern :: regex where
  "ssn_pattern =
     seq [Bnd, Repeat 3 (Some 3) is_digit, Cls (one_of ''-''), Repeat 2 (Some 2) is_digit,
          Cls (one_of ''-''), Repeat 4 (Some 4) is_digit, Bnd]"

definition credit_card_pattern :: regex where
  "credit_card_pattern =
     seq [Bnd,
          Repeat 4 (Some 4) is_digit, Opt (Cls (\<lambda>c. one_of ''-'' c \<or> is_space c)),
          Repeat 4 (Some 4) is_digit, Opt (Cls (\<lambda>c. one_of ''-'' c \<or> is_space c)),
          Repeat 4 (Some 4) is_digit, Opt (Cls (\<lambda>c. one_of ''-'' c \<or> is_space c)),
          Repeat 4 (Some 4) is_digit,
          Bnd]"

datatype detection_type = Profanity | PiiEmail | PiiPhone | PiiSsn | PiiCreditCard

definition piiPatterns :: "(detection_type \<times> regex) list" where
  "piiPatterns =
     [(PiiEmail, email_pattern), (PiiPhone, phone_pattern), (PiiSsn, ssn_pattern),
      (PiiCreditCard, credit_card_pattern)]"

definition profanityList :: "string list" where
  "profanityList = [''damn'', ''hell'', ''crap'', ''stupid'', ''idiot'']"

record content_detection =
  d_type :: detection_type
  d_text :: string
  d_confidence :: nat
  d_startOffset :: int
  d_endOffset :: int

text \<open>\<open>s.split(/\s+/)\<close>: the pieces between the runs of white space; a leading or
  trailing run leaves an empty piece.\<close>

fun split_spaces :: "string \<Rightarrow> string list" where
  "split_spaces [] = [[]]"
| "split_spaces (c # cs) =
     (if is_space c
      then (if cs \<noteq> [] \<and> is_space (hd cs) then split_spaces cs else [] # split_spaces cs)
      else (case split_spaces cs of
              [] \<Rightarrow> [[c]]
            | piece # pieces \<Rightarrow> (c # piece) # pieces))"

text \<open>\<open>s.indexOf(w)\<close>: the first position at which \<open>w\<close> occurs, or -1.\<close>

fun indexOf :: "string \<Rightarrow> string \<Rightarrow> int" where
  "indexOf [] w = (if w = [] then 0 else - 1)"
| "indexOf (c # cs) w =
     (if prefix w (c # cs) then 0
      else (let k = indexOf cs w in if k < 0 then - 1 else k + 1))"

text \<open>\<open>s.slice(a, b)\<close> on integers: a negative index counts from the end.\<close>

definition js_slice :: "string \<Rightarrow> int \<Rightarrow> int \<Rightarrow> string" where
  "js_slice s a b =
     (let len = int (length s);
          from = (if a < 0 then max (len + a) 0 else min a len);
          to = (if b < 0 then max (len + b) 0 else min b len)
      in take (nat (to - from)) (drop (nat from) s))"

definition profanity_detections :: "string \<Rightarrow> content_detection list" where
  "profanity_detections transcript =
     concat (map (\<lambda>word.
       if word \<in> set profanityList
       then (let startOffset = indexOf (toLowerCase transcript) word
             in [\<lparr> d_type = Profanity, d_text = word, d_confidence = 95,
                   d_startOffset = startOffset,
                   d_endOffset = startOffset + int (length word) \<rparr>])
       else []) (split_spaces (toLowerCase transcript)))"

definition pii_detections :: "detection_type \<Rightarrow> regex \<Rightarrow> string \<Rightarrow> content_detection list" where
  "pii_detections ty pattern transcript =
     map (\<lambda>(index, e).
       let match0 = take (e - index) (drop index transcript)
       in \<lparr> d_type = ty, d_text = match0, d_confidence = 90,
            d_startOffset = int index,
            d_endOffset = int index + int (length match0) \<rparr>)
       (matchAll pattern transcript)"

definition detectContent :: "string \<Rightarrow> content_detection list" where
  "detectContent transcript =
     profanity_detections transcript @
     concat (map (\<lambda>(ty, pattern). pii_detections ty pattern transcript) piiPatterns)"

text \<open>\<open>xs[k]\<close> for an integer \<open>k\<close>: \<open>None\<close> is the \<open>undefined\<close> that an index
  outside the array gives.\<close>

definition element_at :: "'a list \<Rightarrow> int \<Rightarrow> 'a option" where
  "element_at xs k = (if 0 \<le> k \<and> nat k < length xs then Some (xs ! nat k) else None)"

text \<open>\<open>s.split(' ')\<close>: the pieces between single spaces.\<close>

fun split_on :: "char \<Rightarrow> string \<Rightarrow> string list" where
  "split_on sep [] = [[]]"
| "split_on sep (c # cs) =
     (if c = sep then [] # split_on sep cs
      else (case split_on sep cs of
              [] \<Rightarrow> [[c]]
            | piece # pieces \<Rightarrow> (c # piece) # pieces))"

record audio_context =
  ctx_sessionId :: string
  ctx_language :: string
  ctx_speakerDiarization :: bool

record audio_chunk_data =
  ac_audioData :: string
  ac_sessionId :: string
  ac_timestamp :: string
  ac_context :: audio_context

record asr_result =
  asr_transcript :: string
  asr_confidence :: real
  asr_speakerTag :: "string option"
  asr_timestamp :: string
  asr_isFinal :: bool
  asr_detections :: "content_detection list option"

text \<open>
  The values \<open>Math.random()\<close> returns to \<open>processAudioChunk\<close>, by the place that
  uses them (the draw that only sets the simulated delay is left out). Each is a number
  from 0 up to, not including, 1.
\<close>

record asr_draws =
  phrase_draw :: real
  confidence_draw :: real
  speaker_draw :: real

definition samplePhrases :: "string list" where
  "samplePhrases =
     [''Hi, I'm having trouble connecting to the wifi network.'',
      ''I've tried restarting my computer but it's still not working.'',
      ''The error message says 'Cannot connect to Campus-Secure'.'',
      ''Let me check the network adapter settings.'',
      ''I can see the device manager is open now.'',
      ''Let's try updating the network driver.'',
      ''The driver update is installing now.'',
      ''Great! Now I can see the network is connected.'',
      ''Let me test the internet connection.'',
      ''Perfect, everything is working now. Thank you for your help.'',
      ''You're welcome. Is there anything else I can help you with?'',
      ''No, that's all for now. Have a great day!'']"

definition simulateASR :: "real \<Rightarrow> string option" where
  "simulateASR r = element_at samplePhrases \<lfloor>r * real (length samplePhrases)\<rfloor>"

definition calculateConfidence :: "string \<Rightarrow> real \<Rightarrow> real" where
  "calculateConfidence transcript r =
     (let baseConfidence = 85;
          lengthFactor = min (real (length transcript) / 50) 1 * 10;
          wordsCount = length (split_on CHR '' '' transcript);
          wordsFactor = min (real wordsCount / 5) 1 * 5
      in min (baseConfidence + lengthFactor + wordsFactor + (r * 10 - 5)) 100)"

definition determineSpeaker :: "real \<Rightarrow> string option" where
  "determineSpeaker r = element_at [''Agent'', ''Customer''] \<lfloor>r * 2\<rfloor>"

text \<open>
  \<open>processAudioChunk\<close>: \<open>Inl\<close> is the message of the error its \<open>catch\<close> throws. The
  only statement of the \<open>try\<close> block that can throw is \<open>transcript.length\<close> in
  \<open>calculateConfidence\<close>, on an \<open>undefined\<close> transcript.
\<close>

definition processAudioChunk :: "asr_draws \<Rightarrow> audio_chunk_data \<Rightarrow> string + asr_result" where
  "processAudioChunk draws data =
     (case simulateASR (phrase_draw draws) of
        None \<Rightarrow> Inl ''Failed to process audio chunk''
      | Some transcript \<Rightarrow>
          (let confidence = calculateConfidence transcript (confidence_draw draws);
               speakerTag = (if ctx_speakerDiarization (ac_context data)
                             then determineSpeaker (speaker_draw draws) else None);
               detections = detectContent transcript
           in Inr \<lparr> asr_transcript = transcript, asr_confidence = confidence,
                    asr_speakerTag = speakerTag, asr_timestamp = ac_timestamp data,
                    asr_isFinal = True,
                    asr_detections = (if length detections > 0 then Some detections else None) \<rparr>))"

section \<open>The transcription queue\<close>

datatype job_status = Queued | Processing | Completed | Failed

text \<open>The interface \<open>TranscriptionJob\<close>. Dates are their time values in milliseconds.\<close>

record transcription_job =
  j_id :: string
  j_audioUrl :: string
  j_sessionId :: string
  j_language :: string
  j_requestedAt :: int
  j_status :: job_status
  j_progress :: "nat option"
  j_result :: "string option"
  j_error :: "string option"
  j_completedAt :: "int option"

text \<open>
  The object \<open>TranscriptionQueue\<close>. Job objects live in \<open>heap\<close> and are named by their
  index there, because the processor keeps a reference to the job it works on while
  \<open>addJob\<close> and \<open>cleanupOldJobs\<close> may rebind or delete the map entry of the same id.
  \<open>jobs\<close> is the \<open>Map\<close> from job id to job object, in insertion order;
  \<open>processingQueue\<close> the array of queued ids. \<open>current\<close> is the local state of the
  processor loop while it is inside \<open>processJob\<close>: the job it holds and the progress
  updates it still has to write.
\<close>

record queue_state =
  heap :: "transcription_job list"
  jobs :: "(string \<times> nat) list"
  processingQueue :: "string list"
  isProcessing :: bool
  current :: "(nat \<times> nat list) option"

text \<open>The state the constructor leaves: \<open>startQueueProcessor\<close> has set \<open>isProcessing\<close>
  and is waiting on its first timer.\<close>

definition new_queue :: queue_state where
  "new_queue = \<lparr> heap = [], jobs = [], processingQueue = [], isProcessing = True, current = None \<rparr>"

text \<open>What the outside world decides for the queue: the arguments of each call, the id
  \<open>generateJobId\<close> draws, the outcome of \<open>asrProcessor.transcribeFile\<close> and the clock.\<close>

datatype transcribe_outcome = Transcript string | Thrown string

datatype queue_op =
    AddJob string string string int string
  | Poll
  | ProgressTick
  | TranscribeDone transcribe_outcome int
  | CleanupOldJobs int int

text \<open>What an observer sees the queue do with job ids.\<close>

datatype queue_event = Added string | Dequeued string | Started string

definition addJob :: "string \<Rightarrow> string \<Rightarrow> string \<Rightarrow> int \<Rightarrow> string \<Rightarrow> queue_state \<Rightarrow> queue_state" where
  "addJob url sid lang req jobId q =
     (let job = \<lparr> j_id = jobId, j_audioUrl = url, j_sessionId = sid, j_language = lang,
                   j_requestedAt = req, j_status = Queued, j_progress = Some 0, j_result = None,
                   j_error = None, j_completedAt = None \<rparr>
      in q \<lparr> heap := heap q @ [job],
             jobs := AList.update jobId (length (heap q)) (jobs q),
             processingQueue := processingQueue q @ [jobId] \<rparr>)"

definition getJobStatus :: "string \<Rightarrow> queue_state \<Rightarrow> transcription_job option" where
  "getJobStatus jobId q = map_option (\<lambda>a. heap q ! a) (map_of (jobs q) jobId)"

definition modify_job :: "nat \<Rightarrow> (transcription_job \<Rightarrow> transcription_job) \<Rightarrow> queue_state \<Rightarrow> queue_state" where
  "modify_job a f q = q \<lparr> heap := (heap q)[a := f (heap q ! a)] \<rparr>"

text \<open>
  One turn of the \<open>while (true)\<close> loop of \<open>startQueueProcessor\<close>, up to its next
  \<open>await\<close>: with an empty queue it sleeps; otherwise it shifts the first id, skips it
  when the map has no such job, and else enters \<open>processJob\<close>, which marks the job as
  processing before its first timer.
\<close>

definition poll :: "queue_state \<Rightarrow> queue_state \<times> queue_event list" where
  "poll q =
     (case processingQueue q of
        [] \<Rightarrow> (q, [])
      | jobId # rest \<Rightarrow>
          (let q1 = q \<lparr> processingQueue := rest \<rparr> in
           case map_of (jobs q1) jobId of
             None \<Rightarrow> (q1, [Dequeued jobId])
           | Some a \<Rightarrow>
               (modify_job a (\<lambda>j. j \<lparr> j_status := Processing, j_progress := Some 10 \<rparr>) q1
                  \<lparr> current := Some (a, [20, 40, 60, 80]) \<rparr>,
                [Dequeued jobId, Started (j_id (heap q1 ! a))])))"

text \<open>The end of \<open>processJob\<close>: the \<open>try\<close> block's last statements when
  \<open>transcribeFile\<close> returned, the \<open>catch\<close> block when it threw. Nothing escapes
  \<open>processJob\<close>, so the \<open>catch\<close> of the processor loop is never entered.\<close>

definition finish_job :: "nat \<Rightarrow> transcribe_outcome \<Rightarrow> int \<Rightarrow> queue_state \<Rightarrow> queue_state" where
  "finish_job a outcome now q =
     (case outcome of
        Transcript t \<Rightarrow>
          modify_job a (\<lambda>j. j \<lparr> j_status := Completed, j_progress := Some 100,
                                 j_result := Some t, j_completedAt := Some now \<rparr>) q
      | Thrown msg \<Rightarrow>
          modify_job a (\<lambda>j. j \<lparr> j_status := Failed, j_error := Some msg,
                                 j_completedAt := Some now \<rparr>) q)
     \<lparr> current := None \<rparr>"

definition cleanupOldJobs :: "int \<Rightarrow> int \<Rightarrow> queue_state \<Rightarrow> queue_state" where
  "cleanupOldJobs now maxAgeHours q =
     (let cutoffTime = now - maxAgeHours * 60 * 60 * 1000
      in q \<lparr> jobs := filter (\<lambda>(jobId, a).
                 \<not> (case j_completedAt (heap q ! a) of None \<Rightarrow> False | Some c \<Rightarrow> c < cutoffTime))
               (jobs q) \<rparr>)"

text \<open>
  One step of the queue: a call from outside, or the processor running from one
  \<open>await\<close> to the next. \<open>None\<close> means the step cannot happen in this state (the
  processor is a single loop, so it polls only when it holds no job, and it ticks or
  finishes only the job it holds).
\<close>

fun queue_step :: "queue_op \<Rightarrow> queue_state \<Rightarrow> (queue_state \<times> queue_event list) option" where
  "queue_step (AddJob url sid lang req jobId) q = Some (addJob url sid lang req jobId q, [Added jobId])"
| "queue_step Poll q = (case current q of None \<Rightarrow> Some (poll q) | Some _ \<Rightarrow> None)"
| "queue_step ProgressTick q =
     (case current q of
        Some (a, p # ps) \<Rightarrow>
          Some (modify_job a (\<lambda>j. j \<lparr> j_progress := Some p \<rparr>) q \<lparr> current := Some (a, ps) \<rparr>, [])
      | _ \<Rightarrow> None)"
| "queue_step (TranscribeDone outcome now) q =
     (case current q of
        Some (a, []) \<Rightarrow> Some (finish_job a outcome now q, [])
      | _ \<Rightarrow> None)"
| "queue_step (CleanupOldJobs now maxAgeHours) q = Some (cleanupOldJobs now maxAgeHours q, [])"

fun queue_run :: "queue_op list \<Rightarrow> queue_state \<Rightarrow> (queue_state \<times> queue_event list) option" where
  "queue_run [] q = Some (q, [])"
| "queue_run (op # ops) q =
     (case queue_step op q of
        None \<Rightarrow> None
      | Some (q1, evs1) \<Rightarrow>
          (case queue_run ops q1 of
             None \<Rightarrow> None
           | Some (q2, evs2) \<Rightarrow> Some (q2, evs1 @ evs2)))"

definition added :: "queue_event list \<Rightarrow> string list" where
  "added evs = concat (map (\<lambda>e. case e of Added i \<Rightarrow> [i] | _ \<Rightarrow> []) evs)"

definition dequeued :: "queue_event list \<Rightarrow> string list" where
  "dequeued evs = concat (map (\<lambda>e. case e of Dequeued i \<Rightarrow> [i] | _ \<Rightarrow> []) evs)"

definition started :: "queue_event list \<Rightarrow> string list" where
  "started evs = concat (map (\<lambda>e. case e of Started i \<Rightarrow> [i] | _ \<Rightarrow> []) evs)"

record queue_stats =
  totalJobs :: nat
  queuedJobs :: nat
  processingJobs :: nat
  completedJobs :: nat
  failedJobs :: nat

definition count_job :: "queue_stats \<Rightarrow> transcription_job \<Rightarrow> queue_stats" where
  "count_job stats job =
     (case j_status job of
        Queued \<Rightarrow> stats \<lparr> queuedJobs := queuedJobs stats + 1 \<rparr>
      | Processing \<Rightarrow> stats \<lparr> processingJobs := processingJobs stats + 1 \<rparr>
      | Completed \<Rightarrow> stats \<lparr> completedJobs := completedJobs stats + 1 \<rparr>
      | Failed \<Rightarrow> stats \<lparr> failedJobs := failedJobs stats + 1 \<rparr>)"

definition getQueueStats :: "queue_state \<Rightarrow> queue_stats" where
  "getQueueStats q =
     foldl count_job
       \<lparr> totalJobs = length (jobs q), queuedJobs = 0, processingJobs = 0,
         completedJobs = 0, failedJobs = 0 \<rparr>
       (map (\<lambda>(jobId, a). heap q ! a) (jobs q))"

text \<open>Every entry of the map names a job object of the heap that carries the entry's id.\<close>

definition jobs_wf :: "queue_state \<Rightarrow> bool" where
  "jobs_wf q = (\<forall>(k, a) \<in> set (jobs q). a < length (heap q) \<and> j_id (heap q ! a) = k)"

section \<open>Example data\<close>

text \<open>A small database in the shape of the seed data, with a report of a second tenant.\<close>


definition demo_report :: "string \<Rightarrow> string \<Rightarrow> string \<Rightarrow> report_row" where
  "demo_report rid sid tenantId =
     \<lparr> r_id = rid, r_sessionId = sid, r_tenantId = tenantId,
       r_problem = Some ''User unable to access Outlook email, receiving authentication errors.'',
       r_actions = JArr [JObj [(''step'', JNum ''1''), (''description'', JStr ''Cleared Outlook credential cache'')]],
       r_result = Some ''Email account successfully configured.'',
       r_nextSteps = JArr [], r_tags = JArr [JStr ''email''], r_timeline = JUndefined,
       r_redactions = JUndefined, r_editorChanges = JUndefined, r_isCustomerFacing = False,
       r_templateId = None, r_createdAt = ''2025-09-15T09:00:00.000Z'',
       r_updatedAt = ''2025-09-15T09:00:00.000Z'' \<rparr>"

definition demo_db :: mock_database where
  "demo_db =
     \<lparr> users =
         [\<lparr> u_id = ''user-2'', u_tenantId = ''demo-tenant-1'', u_email = ''agent@reportify.com'',
            u_name = ''Agent Smith'', u_role = ''agent'', u_isActive = True, u_lastLoginAt = None,
            u_createdAt = ''2025-09-15T09:00:00.000Z'', u_updatedAt = ''2025-09-15T09:00:00.000Z'' \<rparr>],
       sessions =
         [\<lparr> s_id = ''session-1'', s_tenantId = ''demo-tenant-1'', s_agentId = ''user-2'',
            s_customerId = Some ''customer-1'', s_customerName = Some ''John Doe'',
            s_status = ''completed'', s_sources = JUndefined, s_consentFlags = JUndefined,
            s_mediaUris = JUndefined, s_startedAt = ''2025-09-15T08:00:00.000Z'',
            s_endedAt = Some ''2025-09-15T08:20:00.000Z'', s_duration = Some 1200,
            s_createdAt = ''2025-09-15T09:00:00.000Z'', s_updatedAt = ''2025-09-15T09:00:00.000Z'' \<rparr>],
       reports = [demo_report ''report-1'' ''session-1'' ''demo-tenant-1'',
                  demo_report ''report-9'' ''session-9'' ''other-tenant''],
       events = [], auditLogs = [] \<rparr>"

definition demo_request :: request where
  "demo_request =
     \<lparr> user = Some \<lparr> au_id = ''user-2'', au_tenantId = ''demo-tenant-1'',
                      au_email = ''agent@reportify.com'', au_name = ''Agent Smith'',
                      au_role = ''agent'' \<rparr>,
       jwt_userId = Some ''user-2'', ip = ''10.0.0.1'' \<rparr>"

text \<open>The mock database with the users its constructor seeds.\<close>

definition seeded_db :: mock_database where
  "seeded_db = demo_db \<lparr> users := seedData_users ''2025-09-15T09:00:00.000Z'' \<rparr>"

text \<open>An ORM database with one tenant, one user and one report, a request that carries
  that user, and a body that asks for an export of that report.\<close>

definition demo_orm :: orm_database where
  "demo_orm =
     \<lparr> orm_tenants = [''9b2f6c1e-4d3a-4f7b-8c21-0a1b2c3d4e5f''],
       orm_users = [''5e8a7d10-3c4b-4a6f-9d2e-7f8091a2b3c4''],
       orm_reports = [demo_report ''123e4567-e89b-42d3-a456-426614174000''
                        ''7a1b2c3d-4e5f-4a0b-9c8d-1e2f3a4b5c6d''
                        ''9b2f6c1e-4d3a-4f7b-8c21-0a1b2c3d4e5f''],
       orm_exports = [], orm_auditLogs = [] \<rparr>"

definition orm_user_request :: request where
  "orm_user_request =
     \<lparr> user = Some \<lparr> au_id = ''5e8a7d10-3c4b-4a6f-9d2e-7f8091a2b3c4'',
                      au_tenantId = ''9b2f6c1e-4d3a-4f7b-8c21-0a1b2c3d4e5f'',
                      au_email = ''agent@reportify.com'', au_name = ''Agent Smith'',
                      au_role = ''agent'' \<rparr>,
       jwt_userId = Some ''5e8a7d10-3c4b-4a6f-9d2e-7f8091a2b3c4'', ip = ''10.0.0.1'' \<rparr>"

definition demo_export_body :: jsval where
  "demo_export_body =
     JObj [(''reportId'', JStr ''123e4567-e89b-42d3-a456-426614174000''),
           (''target'', JStr ''servicenow''), (''format'', JStr ''json'')]"

definition demo_clock :: clock where
  "demo_clock = \<lparr> now_ms = 1757926800000, now_iso = ''2025-09-15T09:00:00.000Z'' \<rparr>"

definition empty_session :: csession where
  "empty_session =
     \<lparr> cs_id = ''session-0'', cs_customerId = None, cs_customerName = None,
       cs_startedAt = Date ''2025-09-15T10:00:00.000Z'', cs_endedAt = None, cs_events = [] \<rparr>"

definition demo_session :: csession where
  "demo_session =
     \<lparr> cs_id = ''session-1'', cs_customerId = Some ''customer-1'', cs_customerName = Some ''John Doe'',
       cs_startedAt = Date ''2025-09-15T10:00:00.000Z'', cs_endedAt = None,
       cs_events =
         [\<lparr> ev_id = ''e1'', ev_timestamp = Date ''2025-09-15T10:00:00.000Z'',
            ev_type = ''asr_transcript'', ev_payload = JObj [(''text'', JStr ''My WiFi is down'')],
            ev_speakerTag = Some ''Customer'', ev_confidence = Some 93 \<rparr>,
          \<lparr> ev_id = ''e2'', ev_timestamp = Date ''2025-09-15T10:00:05.000Z'',
            ev_type = ''ui_click'',
            ev_payload = JObj [(''action'', JStr ''click''), (''target'', JStr ''Network settings'')],
            ev_speakerTag = None, ev_confidence = None \<rparr>] \<rparr>"

definition invalid_date_session :: csession where
  "invalid_date_session =
     \<lparr> cs_id = ''session-2'', cs_customerId = None, cs_customerName = None,
       cs_startedAt = Date ''2025-09-15T10:00:00.000Z'', cs_endedAt = None,
       cs_events =
         [\<lparr> ev_id = ''e1'', ev_timestamp = InvalidDate, ev_type = ''ui_click'',
            ev_payload = JObj [(''action'', JStr ''click''), (''target'', JStr ''OK'')],
            ev_speakerTag = None, ev_confidence = None \<rparr>] \<rparr>"

definition shadowed_toString_session :: csession where
  "shadowed_toString_session =
     \<lparr> cs_id = ''session-3'', cs_customerId = None, cs_customerName = None,
       cs_startedAt = Date ''2025-09-15T10:00:00.000Z'', cs_endedAt = None,
       cs_events =
         [\<lparr> ev_id = ''e1'', ev_timestamp = Date ''2025-09-15T10:00:00.000Z'',
            ev_type = ''asr_transcript'',
            ev_payload = JObj [(''text'', JObj [(''toString'', JNum ''1'')])],
            ev_speakerTag = None, ev_confidence = None \<rparr>] \<rparr>"

definition demo_chunk :: audio_chunk_data where
  "demo_chunk =
     \<lparr> ac_audioData = ''AAAA'', ac_sessionId = ''session-1'',
       ac_timestamp = ''2025-09-15T10:00:00.000Z'',
       ac_context = \<lparr> ctx_sessionId = ''session-1'', ctx_language = ''en-US'',
                      ctx_speakerDiarization = True \<rparr> \<rparr>"

definition demo_event_body :: add_event_data where
  "demo_event_body =
     \<lparr> ae_timestamp = ''2025-09-15T10:00:00.000Z'', ae_type = ''ui_click'',
       ae_payload = JObj [(''action'', JStr ''click''), (''target'', JStr ''OK'')],
       ae_speakerTag = None, ae_confidence = None \<rparr>"

section \<open>Properties\<close>

text \<open>
  C7. For every request and every list of allowed roles, the guard replies 401 when the
  request has no authenticated user; when it has one, it replies 403 exactly when the
  user's role is not in the allowed list (whatever the role is, so in particular for
  agent, manager, admin and auditor) and otherwise sends no reply; and in every case
  the request is left as it was.
\<close>

theorem requireRole_guard:
  "fst (requireRole allowedRoles req) = req \<and>
   (user req = None \<longrightarrow>
      snd (requireRole allowedRoles req) = Some (Reply 401 (ErrorBody ''Authentication required''))) \<and>
   (\<forall>u. user req = Some u \<longrightarrow>
      (au_role u \<notin> set allowedRoles \<longleftrightarrow>
         snd (requireRole allowedRoles req) = Some (Reply 403 (ErrorBody ''Insufficient permissions''))) \<and>
      (au_role u \<in> set allowedRoles \<longleftrightarrow> snd (requireRole allowedRoles req) = None))"
  by (cases "user req") (auto simp: requireRole_def)

theorem requireRole_guard_witness:
  "snd (requireRole [''admin'', ''manager'']
          \<lparr> user = None, jwt_userId = None, ip = ''10.0.0.1'' \<rparr>) =
     Some (Reply 401 (ErrorBody ''Authentication required'')) \<and>
   snd (requireRole [''admin'', ''manager'']
          \<lparr> user = Some \<lparr> au_id = ''user-2'', au_tenantId = ''demo-tenant-1'',
                           au_email = ''agent@reportify.com'', au_name = ''Agent Smith'',
                           au_role = ''agent'' \<rparr>,
            jwt_userId = Some ''user-2'', ip = ''10.0.0.1'' \<rparr>) =
     Some (Reply 403 (ErrorBody ''Insufficient permissions'')) \<and>
   snd (requireRole [''admin'', ''manager'']
          \<lparr> user = Some \<lparr> au_id = ''user-3'', au_tenantId = ''demo-tenant-1'',
                           au_email = ''manager@reportify.com'', au_name = ''Manager Johnson'',
                           au_role = ''manager'' \<rparr>,
            jwt_userId = Some ''user-3'', ip = ''10.0.0.1'' \<rparr>) = None"
  using requireRole_guard [of "[''admin'', ''manager'']"
          "\<lparr> user = None, jwt_userId = None, ip = ''10.0.0.1'' \<rparr>"]
        requireRole_guard [of "[''admin'', ''manager'']"
          "\<lparr> user = Some \<lparr> au_id = ''user-2'', au_tenantId = ''demo-tenant-1'',
                           au_email = ''agent@reportify.com'', au_name = ''Agent Smith'',
                           au_role = ''agent'' \<rparr>,
            jwt_userId = Some ''user-2'', ip = ''10.0.0.1'' \<rparr>"]
        requireRole_guard [of "[''admin'', ''manager'']"
          "\<lparr> user = Some \<lparr> au_id = ''user-3'', au_tenantId = ''demo-tenant-1'',
                           au_email = ''manager@reportify.com'', au_name = ''Manager Johnson'',
                           au_role = ''manager'' \<rparr>,
            jwt_userId = Some ''user-3'', ip = ''10.0.0.1'' \<rparr>"]
  by simp

subsection \<open>The transcription queue\<close>

lemma count_job_total: "totalJobs (foldl count_job st js) = totalJobs st"
  by (induction js arbitrary: st) (auto simp: count_job_def split: job_status.splits)

lemma count_job_sum:
  "queuedJobs (foldl count_job st js) + processingJobs (foldl count_job st js) +
   completedJobs (foldl count_job st js) + failedJobs (foldl count_job st js) =
   queuedJobs st + processingJobs st + completedJobs st + failedJobs st + length js"
  by (induction js arbitrary: st) (auto simp: count_job_def split: job_status.splits)

lemma queue_step_fifo:
  "queue_step op q = Some (q', evs) \<Longrightarrow>
   dequeued evs @ processingQueue q' = processingQueue q @ added evs"
  by (cases op)
     (auto simp: addJob_def poll_def modify_job_def finish_job_def cleanupOldJobs_def
                 added_def dequeued_def Let_def
           split: option.splits list.splits prod.splits transcribe_outcome.splits)


lemma set_update_subset: "set (AList.update k v al) \<subseteq> insert (k, v) (set al)"
  by (induction al) auto

lemma jobs_wf_modify:
  assumes wf: "jobs_wf q" and f: "\<And>j. j_id (f j) = j_id j"
    and j: "jobs q' = jobs q" and h: "heap q' = heap (modify_job a f q)"
  shows "jobs_wf q'"
  unfolding jobs_wf_def
proof (clarify)
  fix k b assume "(k, b) \<in> set (jobs q')"
  then have kb: "(k, b) \<in> set (jobs q)" by (simp add: j)
  with wf have b: "b < length (heap q)" and id: "j_id (heap q ! b) = k"
    by (auto simp: jobs_wf_def)
  have "j_id (heap q' ! b) = k"
    using b id f by (cases "a = b") (simp_all add: h modify_job_def)
  moreover have "b < length (heap q')" using b by (simp add: h modify_job_def)
  ultimately show "b < length (heap q') \<and> j_id (heap q' ! b) = k" by simp
qed

lemma jobs_wf_addJob:
  assumes wf: "jobs_wf q"
  shows "jobs_wf (addJob url sid lang req jobId q)"
  unfolding jobs_wf_def
proof (clarify)
  let ?q' = "addJob url sid lang req jobId q"
  fix k b assume "(k, b) \<in> set (jobs ?q')"
  then have "(k, b) \<in> insert (jobId, length (heap q)) (set (jobs q))"
    using set_update_subset [of jobId "length (heap q)" "jobs q"]
    by (auto simp: addJob_def Let_def)
  then show "b < length (heap ?q') \<and> j_id (heap ?q' ! b) = k"
    using wf by (auto simp: jobs_wf_def addJob_def Let_def nth_append)
qed

lemma jobs_wf_cleanup: "jobs_wf q \<Longrightarrow> jobs_wf (cleanupOldJobs now h q)"
  by (auto simp: cleanupOldJobs_def jobs_wf_def Let_def)

lemma jobs_wf_poll: "jobs_wf q \<Longrightarrow> jobs_wf (fst (poll q))"
proof (cases "processingQueue q")
  case Nil
  then show "jobs_wf q \<Longrightarrow> jobs_wf (fst (poll q))" by (simp add: poll_def)
next
  case (Cons jobId rest)
  assume wf: "jobs_wf q"
  let ?q1 = "q \<lparr> processingQueue := rest \<rparr>"
  have wf1: "jobs_wf ?q1" using wf by (simp add: jobs_wf_def)
  show "jobs_wf (fst (poll q))"
  proof (cases "map_of (jobs q) jobId")
    case None
    then show ?thesis using Cons wf1 by (simp add: poll_def)
  next
    case (Some a)
    show ?thesis
      by (rule jobs_wf_modify [OF wf1, where a = a and f = "\<lambda>j. j \<lparr> j_status := Processing, j_progress := Some 10 \<rparr>"])
         (simp_all add: poll_def Cons Some modify_job_def)
  qed
qed

lemma jobs_wf_step:
  assumes wf: "jobs_wf q" and st: "queue_step op q = Some (q', evs)"
  shows "jobs_wf q'"
proof (cases op)
  case (AddJob url sid lang req jobId)
  then show ?thesis using st jobs_wf_addJob [OF wf] by auto
next
  case Poll
  then show ?thesis using st jobs_wf_poll [OF wf] by (auto split: option.splits)
next
  case ProgressTick
  then obtain a p ps where c: "current q = Some (a, p # ps)"
    and q': "q' = modify_job a (\<lambda>j. j \<lparr> j_progress := Some p \<rparr>) q \<lparr> current := Some (a, ps) \<rparr>"
    using st by (auto split: option.splits list.splits)
  show ?thesis
    by (rule jobs_wf_modify [OF wf, where a = a and f = "\<lambda>j. j \<lparr> j_progress := Some p \<rparr>"])
       (simp_all add: q' modify_job_def)
next
  case (TranscribeDone outcome now)
  then obtain a where c: "current q = Some (a, [])" and q': "q' = finish_job a outcome now q"
    using st by (auto split: option.splits list.splits)
  show ?thesis
  proof (cases outcome)
    case (Transcript t)
    show ?thesis
      by (rule jobs_wf_modify [OF wf, where a = a and f = "\<lambda>j. j \<lparr> j_status := Completed, j_progress := Some 100,
                                 j_result := Some t, j_completedAt := Some now \<rparr>"])
         (simp_all add: q' finish_job_def Transcript modify_job_def)
  next
    case (Thrown msg)
    show ?thesis
      by (rule jobs_wf_modify [OF wf, where a = a and f = "\<lambda>j. j \<lparr> j_status := Failed, j_error := Some msg,
                                 j_completedAt := Some now \<rparr>"])
         (simp_all add: q' finish_job_def Thrown modify_job_def)
  qed
next
  case (CleanupOldJobs now h)
  then show ?thesis using st jobs_wf_cleanup [OF wf] by auto
qed

lemma step_started:
  assumes wf: "jobs_wf q" and st: "queue_step op q = Some (q', evs)"
  shows "subseq (started evs) (dequeued evs)"
proof (cases op)
  case Poll
  then have evs: "evs = snd (poll q)" using st by (auto split: option.splits)
  show ?thesis
  proof (cases "processingQueue q")
    case Nil
    then show ?thesis by (simp add: evs poll_def started_def dequeued_def)
  next
    case (Cons jobId rest)
    show ?thesis
    proof (cases "map_of (jobs q) jobId")
      case None
      then show ?thesis by (simp add: evs poll_def Cons started_def dequeued_def)
    next
      case (Some a)
      then have "(jobId, a) \<in> set (jobs q)" by (rule map_of_SomeD)
      then have "j_id (heap q ! a) = jobId" using wf by (auto simp: jobs_wf_def)
      then show ?thesis by (simp add: evs poll_def Cons Some started_def dequeued_def)
    qed
  qed
qed (use st in \<open>auto simp: started_def dequeued_def split: option.splits list.splits\<close>)

lemma queue_run_invariant:
  "jobs_wf q \<Longrightarrow> queue_run ops q = Some (q', evs) \<Longrightarrow>
   jobs_wf q' \<and> subseq (started evs) (dequeued evs) \<and>
   dequeued evs @ processingQueue q' = processingQueue q @ added evs"
proof (induction ops arbitrary: q q' evs)
  case Nil
  then show ?case by (simp add: added_def dequeued_def started_def)
next
  case (Cons op ops)
  from Cons.prems(2) obtain q1 evs1 evs2 where
    s1: "queue_step op q = Some (q1, evs1)" and
    s2: "queue_run ops q1 = Some (q', evs2)" and
    ev: "evs = evs1 @ evs2"
    by (auto split: option.splits prod.splits)
  have wf1: "jobs_wf q1" using jobs_wf_step [OF Cons.prems(1) s1] .
  have sub1: "subseq (started evs1) (dequeued evs1)" using step_started [OF Cons.prems(1) s1] .
  have a: "dequeued evs1 @ processingQueue q1 = processingQueue q @ added evs1"
    using queue_step_fifo [OF s1] .
  from Cons.IH [OF wf1 s2] have wf': "jobs_wf q'"
    and sub2: "subseq (started evs2) (dequeued evs2)"
    and b: "dequeued evs2 @ processingQueue q' = processingQueue q1 @ added evs2"
    by simp_all
  have "subseq (started evs1 @ started evs2) (dequeued evs1 @ dequeued evs2)"
    using sub1 sub2 by (rule list_emb_append_mono)
  then have sub: "subseq (started evs) (dequeued evs)"
    by (simp add: ev started_def dequeued_def)
  have "dequeued evs @ processingQueue q' = dequeued evs1 @ (dequeued evs2 @ processingQueue q')"
    by (simp add: ev dequeued_def)
  also have "\<dots> = (dequeued evs1 @ processingQueue q1) @ added evs2"
    by (simp add: b)
  also have "\<dots> = processingQueue q @ added evs"
    by (simp add: a ev added_def)
  finally show ?case using wf' sub by simp
qed

lemma jobs_wf_new_queue: "jobs_wf new_queue"
  by (simp add: jobs_wf_def new_queue_def)

lemma queue_run_distinct:
  "distinct (map fst (jobs q)) \<Longrightarrow> queue_run ops q = Some (q', evs) \<Longrightarrow>
   distinct (map fst (jobs q'))"
proof (induction ops arbitrary: q q' evs)
  case Nil
  then show ?case by simp
next
  case (Cons op ops)
  from Cons.prems(2) obtain q1 evs1 evs2 where
    s1: "queue_step op q = Some (q1, evs1)" and
    s2: "queue_run ops q1 = Some (q', evs2)"
    by (auto split: option.splits prod.splits)
  have "distinct (map fst (jobs q1))"
    using s1 Cons.prems(1)
    by (cases op)
       (auto simp: addJob_def poll_def modify_job_def finish_job_def cleanupOldJobs_def
                   Let_def distinct_update distinct_map_filter
             split: option.splits list.splits transcribe_outcome.splits)
  then show ?case using Cons.IH s2 by blast
qed

text \<open>
  C5, as the code has it. From the queue's initial state, under every interleaving of
  \<open>addJob\<close> calls, processor turns and clean-ups, the ids the processor has dequeued,
  followed by the ids still waiting, are exactly the ids added, in the order of the
  \<open>addJob\<close> calls; and the jobs it started to process are among the dequeued ids, in
  that same order. The queue is first in, first out.
\<close>

theorem queue_is_fifo:
  "queue_run ops new_queue = Some (q, evs) \<Longrightarrow>
   dequeued evs @ processingQueue q = added evs \<and> subseq (started evs) (dequeued evs)"
  using queue_run_invariant [OF jobs_wf_new_queue, of ops q evs]
  by (simp add: new_queue_def)

theorem queue_is_fifo_witness:
  "\<exists>q evs.
     queue_run [AddJob ''a.wav'' ''s1'' ''en-US'' 0 ''job_1'', AddJob ''b.wav'' ''s2'' ''en-US'' 1 ''job_2'',
                Poll, ProgressTick, ProgressTick, ProgressTick, ProgressTick,
                TranscribeDone (Transcript ''hello'') 5000, Poll] new_queue = Some (q, evs) \<and>
     dequeued evs @ processingQueue q = added evs \<and> subseq (started evs) (dequeued evs) \<and>
     dequeued evs = [''job_1'', ''job_2'']"
proof -
  let ?ops = "[AddJob ''a.wav'' ''s1'' ''en-US'' 0 ''job_1'', AddJob ''b.wav'' ''s2'' ''en-US'' 1 ''job_2'',
                Poll, ProgressTick, ProgressTick, ProgressTick, ProgressTick,
                TranscribeDone (Transcript ''hello'') 5000, Poll]"
  obtain q evs where r: "queue_run ?ops new_queue = Some (q, evs)" and d: "dequeued evs = [''job_1'', ''job_2'']"
    by (simp add: new_queue_def addJob_def poll_def modify_job_def finish_job_def dequeued_def)
  from queue_is_fifo [OF r] d r show ?thesis by blast
qed

text \<open>
  C5, as the claim states it, is false: no run of the queue dequeues or starts jobs in
  an order other than the order in which they were added.
\<close>

theorem queue_order_never_differs:
  "\<not> (\<exists>ops q evs. queue_run ops new_queue = Some (q, evs) \<and>
        (\<not> prefix (dequeued evs) (added evs) \<or> \<not> subseq (started evs) (added evs)))"
proof
  assume "\<exists>ops q evs. queue_run ops new_queue = Some (q, evs) \<and>
        (\<not> prefix (dequeued evs) (added evs) \<or> \<not> subseq (started evs) (added evs))"
  then obtain ops q evs where r: "queue_run ops new_queue = Some (q, evs)"
    and bad: "\<not> prefix (dequeued evs) (added evs) \<or> \<not> subseq (started evs) (added evs)"
    by blast
  from queue_run_invariant [OF jobs_wf_new_queue r]
  have f: "dequeued evs @ processingQueue q = added evs" and s: "subseq (started evs) (dequeued evs)"
    by (simp_all add: new_queue_def)
  from f have p: "prefix (dequeued evs) (added evs)" by (metis prefixI)
  from p have "subseq (dequeued evs) (added evs)" by (rule prefix_imp_subseq)
  with s have "subseq (started evs) (added evs)" by (rule subseq_order.order_trans)
  with p bad show False by blast
qed

text \<open>
  C10. In every state the queue reaches from its initial state, the counts that
  \<open>getQueueStats\<close> returns add up: \<open>totalJobs\<close> is the sum of the queued, processing,
  completed and failed counts (and the map has one entry per id, so \<open>totalJobs\<close> is
  its size).
\<close>

theorem queue_stats_add_up:
  "queue_run ops new_queue = Some (q, evs) \<Longrightarrow>
   totalJobs (getQueueStats q) =
     queuedJobs (getQueueStats q) + processingJobs (getQueueStats q) +
     completedJobs (getQueueStats q) + failedJobs (getQueueStats q)"
  by (simp add: getQueueStats_def count_job_total count_job_sum)

theorem queue_stats_add_up_witness:
  "\<exists>q evs.
     queue_run [AddJob ''a.wav'' ''s1'' ''en-US'' 0 ''job_1'', AddJob ''b.wav'' ''s2'' ''en-US'' 1 ''job_2'',
                Poll, ProgressTick, ProgressTick, ProgressTick, ProgressTick,
                TranscribeDone (Thrown ''Failed to transcribe audio file'') 5000, Poll,
                AddJob ''c.wav'' ''s3'' ''en-US'' 2 ''job_3''] new_queue = Some (q, evs) \<and>
     totalJobs (getQueueStats q) = 3 \<and> queuedJobs (getQueueStats q) = 1 \<and>
     processingJobs (getQueueStats q) = 1 \<and> completedJobs (getQueueStats q) = 0 \<and>
     failedJobs (getQueueStats q) = 1 \<and>
     totalJobs (getQueueStats q) =
       queuedJobs (getQueueStats q) + processingJobs (getQueueStats q) +
       completedJobs (getQueueStats q) + failedJobs (getQueueStats q)"
proof -
  let ?ops = "[AddJob ''a.wav'' ''s1'' ''en-US'' 0 ''job_1'', AddJob ''b.wav'' ''s2'' ''en-US'' 1 ''job_2'',
                Poll, ProgressTick, ProgressTick, ProgressTick, ProgressTick,
                TranscribeDone (Thrown ''Failed to transcribe audio file'') 5000, Poll,
                AddJob ''c.wav'' ''s3'' ''en-US'' 2 ''job_3'']"
  obtain q evs where r: "queue_run ?ops new_queue = Some (q, evs)"
    and c: "totalJobs (getQueueStats q) = 3 \<and> queuedJobs (getQueueStats q) = 1 \<and>
     processingJobs (getQueueStats q) = 1 \<and> completedJobs (getQueueStats q) = 0 \<and>
     failedJobs (getQueueStats q) = 1"
    by (simp add: new_queue_def addJob_def poll_def modify_job_def finish_job_def
                  getQueueStats_def count_job_def)
  from queue_stats_add_up [OF r] c r show ?thesis by blast
qed

subsection \<open>The report routes\<close>

lemma find_Some_pred: "List.find P xs = Some x \<Longrightarrow> P x \<and> x \<in> set xs"
  by (induction xs) (auto split: if_splits)

lemma findReportById_Some:
  "findReportById db rid = Some r \<Longrightarrow> r_id r = rid \<and> r \<in> set (reports db)"
  unfolding findReportById_def by (drule find_Some_pred) simp

lemma get_reports_tenant:
  "user req = Some u \<Longrightarrow>
   (\<exists>rs. get_reports db req = Reply 200 (Data rs) \<and>
         (\<forall>r \<in> set rs. r_tenantId r = au_tenantId u) \<and>
         map report_row.truncate rs = findReportsByTenant db (au_tenantId u))"
  by (auto simp: get_reports_def Let_def findReportsByTenant_def report_row.extend_def
      report_row.truncate_def o_def intro!: map_idI)

lemma get_report_cases:
  "user req = Some u \<Longrightarrow>
   (case findReportById db reportId of
      None \<Rightarrow> get_report clk db req reportId = (db, Reply 404 (ErrorBody ''Report not found''))
    | Some report \<Rightarrow>
        if r_tenantId report \<noteq> au_tenantId u
        then get_report clk db req reportId = (db, Reply 404 (ErrorBody ''Report not found''))
        else (\<exists>v. snd (get_report clk db req reportId) = Reply 200 (Data v) \<and>
                   r_tenantId v = au_tenantId u \<and> r_id v = reportId \<and>
                   report_row.truncate v = report))"
  by (auto simp: get_report_def Let_def report_row.extend_def report_row.truncate_def
           split: option.splits dest: findReportById_Some)

lemma authenticate_attaches_user:
  assumes "authenticate db req = (req', None)"
  shows "\<exists>uid row. jwt_userId req = Some uid \<and> findUserById db uid = Some row \<and> u_isActive row \<and>
           map_option au_tenantId (user req') = Some (u_tenantId row) \<and>
           map_option au_id (user req') = Some (u_id row)"
  using assms by (auto simp: authenticate_def split: option.splits if_splits)

text \<open>
  C2. For every database and every request that carries an authenticated user (the
  user that \<open>authenticate\<close> attaches before the handlers run):
  \<open>GET /api/reports\<close> answers 200 with reports that all have the user's tenant id;
  whatever \<open>GET /api/reports/:reportId\<close> sends as report data has the user's tenant id
  and the requested id; and when the database has no report of that id, or the report
  of that id belongs to another tenant, the answer is 404 with the error body, and the
  database is left as it was.
\<close>

theorem reports_tenant_isolation:
  "user req = Some u \<Longrightarrow>
   (\<exists>rs. get_reports db req = Reply 200 (Data rs) \<and>
         (\<forall>r \<in> set rs. r_tenantId r = au_tenantId u)) \<and>
   (\<forall>c v. snd (get_report clk db req reportId) = Reply c (Data v) \<longrightarrow>
         r_tenantId v = au_tenantId u \<and> r_id v = reportId) \<and>
   ((\<forall>report. findReportById db reportId = Some report \<longrightarrow> r_tenantId report \<noteq> au_tenantId u) \<longrightarrow>
      get_report clk db req reportId = (db, Reply 404 (ErrorBody ''Report not found'')))"
proof (intro conjI)
  assume u: "user req = Some u"
  show "\<exists>rs. get_reports db req = Reply 200 (Data rs) \<and>
         (\<forall>r \<in> set rs. r_tenantId r = au_tenantId u)"
    using get_reports_tenant [OF u, where db = db] by blast
  show "\<forall>c v. snd (get_report clk db req reportId) = Reply c (Data v) \<longrightarrow>
         r_tenantId v = au_tenantId u \<and> r_id v = reportId"
    using get_report_cases [OF u, where db = db and reportId = reportId and clk = clk]
    by (auto split: option.splits if_splits)
  show "(\<forall>report. findReportById db reportId = Some report \<longrightarrow> r_tenantId report \<noteq> au_tenantId u) \<longrightarrow>
      get_report clk db req reportId = (db, Reply 404 (ErrorBody ''Report not found''))"
    using get_report_cases [OF u, where db = db and reportId = reportId and clk = clk]
    by (auto split: option.splits if_splits)
qed

theorem reports_tenant_isolation_witness:
  "(\<exists>rs. get_reports demo_db demo_request = Reply 200 (Data rs) \<and>
          map r_id rs = [''report-1''] \<and> map r_tenantId rs = [''demo-tenant-1'']) \<and>
   get_report \<lparr> now_ms = 1757926800000, now_iso = ''2025-09-15T09:00:00.000Z'' \<rparr>
      demo_db demo_request ''report-9'' = (demo_db, Reply 404 (ErrorBody ''Report not found'')) \<and>
   get_report \<lparr> now_ms = 1757926800000, now_iso = ''2025-09-15T09:00:00.000Z'' \<rparr>
      demo_db demo_request ''report-0'' = (demo_db, Reply 404 (ErrorBody ''Report not found'')) \<and>
   (\<exists>v. snd (get_report \<lparr> now_ms = 1757926800000, now_iso = ''2025-09-15T09:00:00.000Z'' \<rparr>
      demo_db demo_request ''report-1'') = Reply 200 (Data v) \<and> r_tenantId v = ''demo-tenant-1'')"
proof -
  have u: "user demo_request = Some \<lparr> au_id = ''user-2'', au_tenantId = ''demo-tenant-1'',
                      au_email = ''agent@reportify.com'', au_name = ''Agent Smith'',
                      au_role = ''agent'' \<rparr>"
    by (simp add: demo_request_def)
  have f9: "findReportById demo_db ''report-9'' = Some (demo_report ''report-9'' ''session-9'' ''other-tenant'')"
    by (simp add: findReportById_def demo_db_def demo_report_def)
  have f0: "findReportById demo_db ''report-0'' = None"
    by (simp add: findReportById_def demo_db_def demo_report_def)
  have "get_report \<lparr> now_ms = 1757926800000, now_iso = ''2025-09-15T09:00:00.000Z'' \<rparr>
      demo_db demo_request ''report-9'' = (demo_db, Reply 404 (ErrorBody ''Report not found''))"
    using reports_tenant_isolation [OF u, where db = demo_db and reportId = "''report-9''"] f9
    by (simp add: demo_report_def)
  moreover have "get_report \<lparr> now_ms = 1757926800000, now_iso = ''2025-09-15T09:00:00.000Z'' \<rparr>
      demo_db demo_request ''report-0'' = (demo_db, Reply 404 (ErrorBody ''Report not found''))"
    using reports_tenant_isolation [OF u, where db = demo_db and reportId = "''report-0''"] f0 by simp
  moreover have "\<exists>rs. get_reports demo_db demo_request = Reply 200 (Data rs) \<and>
          map r_id rs = [''report-1''] \<and> map r_tenantId rs = [''demo-tenant-1'']"
    by (simp add: get_reports_def Let_def findReportsByTenant_def findSessionById_def
        demo_db_def demo_request_def demo_report_def report_row.extend_def)
  moreover have "\<exists>v. snd (get_report \<lparr> now_ms = 1757926800000, now_iso = ''2025-09-15T09:00:00.000Z'' \<rparr>
      demo_db demo_request ''report-1'') = Reply 200 (Data v) \<and> r_tenantId v = ''demo-tenant-1''"
    by (simp add: get_report_def Let_def findReportById_def findSessionById_def
        demo_db_def demo_request_def demo_report_def report_row.extend_def)
  ultimately show ?thesis by blast
qed

subsection \<open>The report composer\<close>


lemma to_string_printable:
  "printable v \<Longrightarrow> \<exists>s. to_string v = Inr s"
  "list_all printable vs \<Longrightarrow> \<exists>ss. elems_to_strings vs = Inr ss"
proof (induction v and vs rule: to_string_elems_to_strings.induct)
  case (6 xs)
  then show ?case by (auto split: sum.splits)
next
  case (9 v vs)
  show ?case
  proof (cases "v = JUndefined \<or> v = JNull")
    case True
    then have "(if v = JUndefined \<or> v = JNull then Inr [] else to_string v) = Inr []" by simp
    from "9.IH"(2) [OF this] "9.prems" obtain ss where "elems_to_strings vs = Inr ss" by auto
    then show ?thesis using True by auto
  next
    case False
    with "9.IH"(1) "9.prems" obtain s where s: "to_string v = Inr s" by auto
    with False have "(if v = JUndefined \<or> v = JNull then Inr [] else to_string v) = Inr s" by simp
    from "9.IH"(2) [OF this] "9.prems" obtain ss where "elems_to_strings vs = Inr ss" by auto
    then show ?thesis using False s by auto
  qed
qed auto

lemma js_join_printable: "list_all printable vs \<Longrightarrow> \<exists>s. js_join sep vs = Inr s"
  using to_string_printable(2) [of vs] by (auto simp: js_join_def bind_err_def)

lemma extractProblem_nonempty: "extractProblem ts = Inr p \<Longrightarrow> p \<noteq> []"
  by (auto simp: extractProblem_def bind_err_def Let_def split: sum.splits if_splits)

lemma extractProblem_returns: "js_join '' '' ts = Inr j \<Longrightarrow> \<exists>p. extractProblem ts = Inr p"
  by (simp add: extractProblem_def bind_err_def Let_def)

lemma extractResult_nonempty: "extractResult ts = Inr p \<Longrightarrow> p \<noteq> []"
  by (auto simp: extractResult_def bind_err_def Let_def split: sum.splits if_splits)

lemma extractResult_returns: "js_join '' '' ts = Inr j \<Longrightarrow> \<exists>p. extractResult ts = Inr p"
  by (simp add: extractResult_def bind_err_def Let_def)

lemma extractTags_returns: "js_join '' '' ts = Inr j \<Longrightarrow> \<exists>p. extractTags ts us = Inr p"
  by (simp add: extractTags_def bind_err_def Let_def)

lemma generateNextSteps_one: "length (generateNextSteps d p r) = 1"
  by (simp add: generateNextSteps_def)

lemma ui_actions_steps:
  "ui_actions n evs = Inr as \<Longrightarrow> map a_step as = [n ..< n + length evs]"
proof (induction evs arbitrary: n as)
  case Nil
  then show ?case by simp
next
  case (Cons e evs)
  then obtain more where m: "ui_actions (n + 1) evs = Inr more" and a: "map a_step as = n # map a_step more"
    by (auto simp: bind_err_def split: sum.splits)
  from Cons.IH [OF m] have "map a_step more = [n + 1 ..< n + 1 + length evs]" .
  moreover have "[n ..< n + length (e # evs)] = n # [n + 1 ..< n + 1 + length evs]"
    using upt_conv_Cons [of n "n + length (e # evs)"] by simp
  ultimately show ?case using a by simp
qed

lemma describe_action_returns:
  "printable (ui_action e) \<Longrightarrow> printable (ui_target e) \<Longrightarrow> \<exists>d. describe_action e = Inr d"
  using to_string_printable(1) [of "ui_action e"] to_string_printable(1) [of "ui_target e"]
  by (auto simp: describe_action_def bind_err_def)

lemma ui_actions_returns:
  "list_all (\<lambda>e. printable (ui_action e) \<and> printable (ui_target e) \<and> ui_timestamp e \<noteq> InvalidDate) evs \<Longrightarrow>
   \<exists>as. ui_actions n evs = Inr as"
proof (induction evs arbitrary: n)
  case Nil
  then show ?case by simp
next
  case (Cons e evs)
  then obtain d where d: "describe_action e = Inr d" using describe_action_returns [of e] by auto
  from Cons.prems obtain s where s: "ui_timestamp e = Date s" by (cases "ui_timestamp e") auto
  from Cons obtain more where m: "ui_actions (Suc n) evs = Inr more" by fastforce
  show ?case by (simp add: d s m bind_err_def)
qed

lemma generateActions_steps:
  assumes "generateActions us ts = Inr as"
  shows "as \<noteq> [] \<and> map a_step as = [1 ..< Suc (length as)]"
proof -
  from assms obtain xs where x: "ui_actions 1 (take 10 us) = Inr xs"
    and a: "as = (if length xs = 0
            then [\<lparr> a_step = 1, a_description = ''Verified customer's current system status'',
                    a_timestamp = None \<rparr>,
                  \<lparr> a_step = 2, a_description = ''Gathered additional information about the issue'',
                    a_timestamp = None \<rparr>,
                  \<lparr> a_step = 3, a_description = ''Applied recommended troubleshooting steps'',
                    a_timestamp = None \<rparr>]
            else xs)"
    by (auto simp: generateActions_def bind_err_def split: sum.splits)
  show ?thesis
  proof (cases "xs = []")
    case True
    then show ?thesis using a by (simp add: upt_rec)
  next
    case False
    define k where "k = length (take 10 us)"
    have st: "map a_step xs = [1 ..< 1 + k]" using ui_actions_steps [OF x] by (simp only: k_def)
    then have "length (map a_step xs) = length [1 ..< 1 + k]" by (rule arg_cong)
    then have "length xs = k" by simp
    with st have "map a_step xs = [1 ..< Suc (length xs)]" by simp
    then show ?thesis using False a by simp
  qed
qed

lemma timeline_entries_returns:
  "list_all (\<lambda>e. ev_timestamp e \<noteq> InvalidDate) evs \<Longrightarrow> \<exists>t. timeline_entries evs = Inr t"
proof (induction evs)
  case Nil
  then show ?case by simp
next
  case (Cons e evs)
  from Cons.prems obtain s where s: "ev_timestamp e = Date s" by (cases "ev_timestamp e") auto
  from Cons obtain more where m: "timeline_entries evs = Inr more" by auto
  show ?case by (simp add: s m bind_err_def)
qed


lemma generateActions_returns:
  "list_all (\<lambda>e. printable (ui_action e) \<and> printable (ui_target e) \<and> ui_timestamp e \<noteq> InvalidDate) us \<Longrightarrow>
   \<exists>as. generateActions us ts = Inr as"
proof -
  assume a: "list_all (\<lambda>e. printable (ui_action e) \<and> printable (ui_target e) \<and> ui_timestamp e \<noteq> InvalidDate) us"
  have "list_all (\<lambda>e. printable (ui_action e) \<and> printable (ui_target e) \<and> ui_timestamp e \<noteq> InvalidDate) (take 10 us)"
    using a by (auto simp: list_all_iff dest: in_set_takeD)
  from ui_actions_returns [OF this, of 1] obtain xs where "ui_actions 1 (take 10 us) = Inr xs" by blast
  then show ?thesis by (simp add: generateActions_def bind_err_def)
qed

lemma parn_populated:
  assumes "generatePARNReport day_after s = Inr r"
  shows "p_problem r \<noteq> [] \<and> p_actions r \<noteq> [] \<and>
         map a_step (p_actions r) = [1 ..< Suc (length (p_actions r))] \<and>
         p_result r \<noteq> [] \<and> length (p_nextSteps r) = 1"
proof -
  from assms obtain us ts ts5 ts3 problem actions result tags timeline where
    p: "extractProblem ts5 = Inr problem" and
    a: "generateActions us ts = Inr actions" and
    re: "extractResult ts3 = Inr result" and
    r: "r = \<lparr> p_problem = problem, p_actions = actions, p_result = result,
                 p_nextSteps = generateNextSteps day_after problem result, p_tags = tags, p_timeline = timeline \<rparr>"
    by (auto simp: generatePARNReport_def Let_def bind_err_def split: sum.splits)
  show ?thesis
    using extractProblem_nonempty [OF p] generateActions_steps [OF a] extractResult_nonempty [OF re]
    by (simp add: r generateNextSteps_one)
qed

lemma parn_returns:
  assumes pl: "\<forall>e \<in> set (cs_events s). plain_event e"
  shows "\<exists>r. generatePARNReport day_after s = Inr r"
proof -
  let ?ts = "filter truthy
              (map (\<lambda>e. get_field (ev_payload e) ''text'')
                 (filter (\<lambda>e. ev_type e = ''asr_transcript'') (cs_events s)))"
  let ?us = "map (\<lambda>e. \<lparr> ui_timestamp = ev_timestamp e,
                        ui_action = (if truthy (get_field (ev_payload e) ''action'')
                                     then get_field (ev_payload e) ''action''
                                     else JStr ''Unknown action''),
                        ui_target = (if truthy (get_field (ev_payload e) ''target'')
                                     then get_field (ev_payload e) ''target''
                                     else JStr ''Unknown target'') \<rparr>)
              (filter (\<lambda>e. prefix ''ui_'' (ev_type e)) (cs_events s))"
  have ts: "list_all printable ?ts"
    using pl by (auto simp: list_all_iff plain_event_def)
  have ts5: "list_all printable (take 5 ?ts)"
    using ts unfolding list_all_iff by (meson in_set_takeD)
  have ts3: "list_all printable (drop (length ?ts - 3) ?ts)"
    using ts unfolding list_all_iff by (meson in_set_dropD)
  have us: "list_all (\<lambda>e. printable (ui_action e) \<and> printable (ui_target e) \<and> ui_timestamp e \<noteq> InvalidDate) ?us"
    using pl by (auto simp: list_all_iff plain_event_def)
  have tl: "list_all (\<lambda>e. ev_timestamp e \<noteq> InvalidDate)
      (take 20 (filter (\<lambda>e. ev_type e \<in> set [''asr_transcript'', ''ui_click'', ''window_focus'']) (cs_events s)))"
    using pl unfolding list_all_iff plain_event_def by (auto dest!: in_set_takeD)
  from js_join_printable [OF ts5] extractProblem_returns obtain problem where
    p: "extractProblem (take 5 ?ts) = Inr problem" by blast
  from generateActions_returns [OF us] obtain actions where
    a: "generateActions ?us ?ts = Inr actions" by blast
  from js_join_printable [OF ts3] extractResult_returns obtain result where
    re: "extractResult (drop (length ?ts - 3) ?ts) = Inr result" by blast
  from js_join_printable [OF ts] extractTags_returns obtain tags where
    tg: "extractTags ?ts ?us = Inr tags" by blast
  from timeline_entries_returns [OF tl] obtain timeline where
    t: "createTimeline (cs_events s) = Inr timeline" by (auto simp: createTimeline_def)
  show ?thesis
    unfolding generatePARNReport_def Let_def
    by (simp only: p a re tg t bind_err_def sum.case) blast
qed

lemma parn_fallback:
  assumes none: "\<forall>e \<in> set (cs_events s). ev_type e \<noteq> ''asr_transcript'' \<and> \<not> prefix ''ui_'' (ev_type e)"
    and r: "generatePARNReport day_after s = Inr r"
  shows "p_problem r = ''Customer reported technical issue requiring assistance.'' \<and>
         p_actions r =
           [\<lparr> a_step = 1, a_description = ''Verified customer's current system status'', a_timestamp = None \<rparr>,
            \<lparr> a_step = 2, a_description = ''Gathered additional information about the issue'', a_timestamp = None \<rparr>,
            \<lparr> a_step = 3, a_description = ''Applied recommended troubleshooting steps'', a_timestamp = None \<rparr>] \<and>
         p_result r = ''Troubleshooting steps completed. Customer to test and report back if issues persist.'' \<and>
         p_nextSteps r =
           [\<lparr> n_description = ''Monitor for customer callback within 48 hours'',
              n_owner = Some ''T1 Queue'', n_dueDate = Some (day_after 48), n_priority = Medium \<rparr>]"
proof -
  have f1: "filter (\<lambda>e. ev_type e = ''asr_transcript'') (cs_events s) = []"
    using none by (auto simp: filter_empty_conv)
  have f2: "filter (\<lambda>e. prefix ''ui_'' (ev_type e)) (cs_events s) = []"
    using none by (auto simp: filter_empty_conv)
  have p: "extractProblem [] = Inr ''Customer reported technical issue requiring assistance.''"
    by (simp add: extractProblem_def js_join_def bind_err_def toLowerCase_def)
  have re: "extractResult [] = Inr ''Troubleshooting steps completed. Customer to test and report back if issues persist.''"
    by (simp add: extractResult_def js_join_def bind_err_def toLowerCase_def)
  have a: "generateActions [] [] =
     Inr [\<lparr> a_step = 1, a_description = ''Verified customer's current system status'', a_timestamp = None \<rparr>,
            \<lparr> a_step = 2, a_description = ''Gathered additional information about the issue'', a_timestamp = None \<rparr>,
            \<lparr> a_step = 3, a_description = ''Applied recommended troubleshooting steps'', a_timestamp = None \<rparr>]"
    by (simp add: generateActions_def bind_err_def)
  have n: "generateNextSteps day_after ''Customer reported technical issue requiring assistance.''
      ''Troubleshooting steps completed. Customer to test and report back if issues persist.'' =
      [\<lparr> n_description = ''Monitor for customer callback within 48 hours'',
              n_owner = Some ''T1 Queue'', n_dueDate = Some (day_after 48), n_priority = Medium \<rparr>]"
    by (simp add: generateNextSteps_def)
  show ?thesis
    using r unfolding generatePARNReport_def Let_def f1 f2
    by (auto simp: p re a n bind_err_def split: sum.splits)
qed

text \<open>
  C1, as the code has it. Whenever \<open>generatePARNReport\<close> returns a report, its four
  sections are populated: the problem and the result are non-empty strings, the
  actions are a non-empty list whose steps are numbered 1, 2, 3, \<dots> in order, and
  there is exactly one next step. It returns a report for every session whose events
  are plain (valid timestamps, and payload fields that convert to strings), so in
  particular for the session with no events. For a session with no transcript event and
  no UI event the four sections are the default ones.
\<close>

theorem parn_sections_populated:
  "(\<forall>r. generatePARNReport day_after s = Inr r \<longrightarrow>
       p_problem r \<noteq> [] \<and> p_actions r \<noteq> [] \<and>
       map a_step (p_actions r) = [1 ..< Suc (length (p_actions r))] \<and>
       p_result r \<noteq> [] \<and> length (p_nextSteps r) = 1) \<and>
   ((\<forall>e \<in> set (cs_events s). plain_event e) \<longrightarrow> (\<exists>r. generatePARNReport day_after s = Inr r)) \<and>
   ((\<forall>e \<in> set (cs_events s). ev_type e \<noteq> ''asr_transcript'' \<and> \<not> prefix ''ui_'' (ev_type e)) \<longrightarrow>
    (\<forall>r. generatePARNReport day_after s = Inr r \<longrightarrow>
       p_problem r = ''Customer reported technical issue requiring assistance.'' \<and>
       p_actions r =
         [\<lparr> a_step = 1, a_description = ''Verified customer's current system status'', a_timestamp = None \<rparr>,
          \<lparr> a_step = 2, a_description = ''Gathered additional information about the issue'', a_timestamp = None \<rparr>,
          \<lparr> a_step = 3, a_description = ''Applied recommended troubleshooting steps'', a_timestamp = None \<rparr>] \<and>
       p_result r = ''Troubleshooting steps completed. Customer to test and report back if issues persist.'' \<and>
       p_nextSteps r =
         [\<lparr> n_description = ''Monitor for customer callback within 48 hours'',
            n_owner = Some ''T1 Queue'', n_dueDate = Some (day_after 48), n_priority = Medium \<rparr>]))"
  using parn_populated [of day_after s] parn_returns [of s day_after] parn_fallback [of s day_after]
  by blast

theorem parn_sections_populated_witness:
  "(\<exists>r. generatePARNReport (\<lambda>h. ''2025-09-16'') demo_session = Inr r \<and>
        p_problem r = ''Customer experiencing WiFi connectivity issues.'' \<and>
        p_problem r \<noteq> [] \<and> p_actions r \<noteq> [] \<and>
        map a_step (p_actions r) = [1 ..< Suc (length (p_actions r))] \<and>
        p_result r \<noteq> [] \<and> length (p_nextSteps r) = 1) \<and>
   (\<exists>r. generatePARNReport (\<lambda>h. ''2025-09-16'') empty_session = Inr r \<and>
        p_problem r = ''Customer reported technical issue requiring assistance.'' \<and>
        length (p_actions r) = 3 \<and>
        p_result r = ''Troubleshooting steps completed. Customer to test and report back if issues persist.'' \<and>
        map n_priority (p_nextSteps r) = [Medium])"
proof -
  have d: "\<forall>e \<in> set (cs_events demo_session). plain_event e"
    by (simp add: demo_session_def plain_event_def)
  have e: "\<forall>e \<in> set (cs_events empty_session). plain_event e"
    by (simp add: empty_session_def)
  have n: "\<forall>e \<in> set (cs_events empty_session). ev_type e \<noteq> ''asr_transcript'' \<and> \<not> prefix ''ui_'' (ev_type e)"
    by (simp add: empty_session_def)
  note t1 = parn_sections_populated [of "\<lambda>h. ''2025-09-16''" demo_session]
  note t2 = parn_sections_populated [of "\<lambda>h. ''2025-09-16''" empty_session]
  from mp [OF conjunct1 [OF conjunct2 [OF t1]] d]
  obtain r1 where r1: "generatePARNReport (\<lambda>h. ''2025-09-16'') demo_session = Inr r1" ..
  from mp [OF conjunct1 [OF conjunct2 [OF t2]] e]
  obtain r2 where r2: "generatePARNReport (\<lambda>h. ''2025-09-16'') empty_session = Inr r2" ..
  have "map_sum id p_problem (generatePARNReport (\<lambda>h. ''2025-09-16'') demo_session) =
      Inr ''Customer experiencing WiFi connectivity issues.''"
    by code_simp
  then have p1: "p_problem r1 = ''Customer experiencing WiFi connectivity issues.''"
    by (simp add: r1)
  have q1: "p_problem r1 \<noteq> [] \<and> p_actions r1 \<noteq> [] \<and>
        map a_step (p_actions r1) = [1 ..< Suc (length (p_actions r1))] \<and>
        p_result r1 \<noteq> [] \<and> length (p_nextSteps r1) = 1"
    by (rule mp [OF spec [OF conjunct1 [OF t1]] r1])
  have f2: "p_problem r2 = ''Customer reported technical issue requiring assistance.'' \<and>
       p_actions r2 =
         [\<lparr> a_step = 1, a_description = ''Verified customer's current system status'', a_timestamp = None \<rparr>,
          \<lparr> a_step = 2, a_description = ''Gathered additional information about the issue'', a_timestamp = None \<rparr>,
          \<lparr> a_step = 3, a_description = ''Applied recommended troubleshooting steps'', a_timestamp = None \<rparr>] \<and>
       p_result r2 = ''Troubleshooting steps completed. Customer to test and report back if issues persist.'' \<and>
       p_nextSteps r2 =
         [\<lparr> n_description = ''Monitor for customer callback within 48 hours'',
            n_owner = Some ''T1 Queue'', n_dueDate = Some ((\<lambda>h. ''2025-09-16'') 48), n_priority = Medium \<rparr>]"
    by (rule mp [OF spec [OF mp [OF conjunct2 [OF conjunct2 [OF t2]] n]] r2])
  have a2: "length (p_actions r2) = 3" using f2 by simp
  have n2: "map n_priority (p_nextSteps r2) = [Medium]" using f2 by simp
  show ?thesis
  proof (intro conjI)
    show "\<exists>r. generatePARNReport (\<lambda>h. ''2025-09-16'') demo_session = Inr r \<and>
        p_problem r = ''Customer experiencing WiFi connectivity issues.'' \<and>
        p_problem r \<noteq> [] \<and> p_actions r \<noteq> [] \<and>
        map a_step (p_actions r) = [1 ..< Suc (length (p_actions r))] \<and>
        p_result r \<noteq> [] \<and> length (p_nextSteps r) = 1"
      by (rule exI [of _ r1]) (intro conjI r1 p1 conjunct1 [OF q1] conjunct1 [OF conjunct2 [OF q1]]
          conjunct1 [OF conjunct2 [OF conjunct2 [OF q1]]]
          conjunct1 [OF conjunct2 [OF conjunct2 [OF conjunct2 [OF q1]]]]
          conjunct2 [OF conjunct2 [OF conjunct2 [OF conjunct2 [OF q1]]]])
    show "\<exists>r. generatePARNReport (\<lambda>h. ''2025-09-16'') empty_session = Inr r \<and>
        p_problem r = ''Customer reported technical issue requiring assistance.'' \<and>
        length (p_actions r) = 3 \<and>
        p_result r = ''Troubleshooting steps completed. Customer to test and report back if issues persist.'' \<and>
        map n_priority (p_nextSteps r) = [Medium]"
      by (rule exI [of _ r2]) (intro conjI r2 a2 n2 conjunct1 [OF f2]
          conjunct1 [OF conjunct2 [OF conjunct2 [OF f2]]])
  qed
qed

text \<open>
  C1, as the claim states it, fails: on a session whose one UI event carries an
  invalid date, \<open>toISOString\<close> throws and no report is returned; the same happens,
  with a \<open>TypeError\<close>, when a transcript's text is an object with an own property
  \<open>toString\<close>.
\<close>

theorem parn_report_not_always_returned:
  "generatePARNReport (\<lambda>h. ''2025-09-16'') invalid_date_session = Inl RangeError \<and>
   generatePARNReport (\<lambda>h. ''2025-09-16'') shadowed_toString_session = Inl TypeError"
proof
  show "generatePARNReport (\<lambda>h. ''2025-09-16'') invalid_date_session = Inl RangeError"
    by code_simp
  show "generatePARNReport (\<lambda>h. ''2025-09-16'') shadowed_toString_session = Inl TypeError"
    by code_simp
qed

subsection \<open>The export routes\<close>

lemma processExport_returns: "\<exists>result. processExport exportId report config rnd = Inr result"
  by (simp add: processExport_def split: export_target.splits)

lemma export_timer_rows:
  "\<exists>f. orm_exports (export_timer rnd now task db) =
         map (\<lambda>x. if x_id x = t_exportId task then f x else x) (orm_exports db) \<and>
       (\<forall>x. x_id (f x) = x_id x \<and> (export_completed (f x) \<or> export_failed (f x)) \<and>
            \<not> (export_completed (f x) \<and> export_failed (f x)))"
proof (cases "processExport (t_exportId task) (t_report task) (t_data task) rnd")
  case (Inl message)
  show ?thesis
    by (rule exI [where x = "\<lambda>x. x \<lparr> x_status := XFailed, x_errorMessage := Some message, x_updatedAt := now \<rparr>"])
       (simp add: export_timer_def Inl update_exports_def export_completed_def export_failed_def)
next
  case (Inr result)
  show ?thesis
    by (rule exI [where x = "\<lambda>x. x \<lparr> x_status := XCompleted, x_externalId := Some (externalId result),
                      x_deepLink := Some (deepLink result), x_updatedAt := now \<rparr>"])
       (simp add: export_timer_def Inr update_exports_def export_completed_def export_failed_def)
qed

lemma export_timer_completes:
  "orm_exports (export_timer rnd now task db) =
     map (\<lambda>x. if x_id x = t_exportId task
              then x \<lparr> x_status := XCompleted,
                       x_externalId := Some (externalId (projr (processExport (t_exportId task)
                                               (t_report task) (t_data task) rnd))),
                       x_deepLink := Some (deepLink (projr (processExport (t_exportId task)
                                               (t_report task) (t_data task) rnd))),
                       x_updatedAt := now \<rparr>
              else x) (orm_exports db)"
  using processExport_returns [of "t_exportId task" "t_report task" "t_data task" rnd]
  by (auto simp: export_timer_def update_exports_def)

lemma create_export_cases:
  "create_export clk xid aid db req issues requestBody = (db1, rep, sched) \<Longrightarrow>
   (db1 = db \<and> sched = None \<and> (\<forall>row. rep \<noteq> Reply 200 (Data row))) \<or>
   (\<exists>row task. orm_exports db1 = orm_exports db @ [row] \<and> x_status row = XPending \<and>
        x_id row = xid \<and> xid \<notin> set (map x_id (orm_exports db)) \<and>
        x_externalId row = None \<and> x_deepLink row = None \<and> x_errorMessage row = None \<and>
        sched = Some task \<and> t_exportId task = xid \<and>
        (rep = Reply 200 (Data row) \<or> rep = Reply 500 (ErrorBody ''Internal server error'')))"
  by (auto simp: create_export_def Let_def split: option.splits if_splits)

text \<open>
  What the statements of the handler do once the request carries a user of the ORM
  database, whose id and tenant id are uuids: a valid body for a report of the user's
  tenant adds one pending export and schedules the deferred step for it, and that step
  leaves the export completed or failed.
\<close>

lemma create_export_creates:
  assumes "createExportSchema_parse requestBody = Some d"
    and "user req = Some u"
    and "uuid_in (ce_reportId d) = Some reportId"
    and "uuid_in (au_tenantId u) = Some tenantId"
    and "uuid_in (au_id u) = Some userId"
    and "List.find (\<lambda>r. r_id r = reportId \<and> r_tenantId r = tenantId) (orm_reports db) = Some report"
    and "xid \<notin> set (map x_id (orm_exports db))"
    and "tenantId \<in> set (orm_tenants db)"
    and "userId \<in> set (orm_users db)"
    and "aid \<notin> set (map al_id (orm_auditLogs db))"
    and "length (ip req) \<le> 45"
  shows "\<exists>db1 row. create_export clk xid aid db req issues requestBody =
           (db1, Reply 200 (Data row), Some \<lparr> t_exportId = xid, t_report = report, t_data = d \<rparr>) \<and>
         x_status row = XPending \<and> x_id row = xid \<and> x_reportId row = reportId \<and>
         x_tenantId row = tenantId \<and> x_userId row = userId \<and>
         orm_exports db1 = orm_exports db @ [row]"
  using assms by (simp add: create_export_def Let_def)

lemma created_export_flow:
  "create_export clk xid aid db req issues requestBody = (db1, rep, sched) \<Longrightarrow>
   (\<forall>row. rep = Reply 200 (Data row) \<longrightarrow>
      x_status row = XPending \<and> orm_exports db1 = orm_exports db @ [row] \<and>
      (\<exists>task row'. sched = Some task \<and> t_exportId task = x_id row \<and>
         orm_exports (export_timer rnd now task db1) = orm_exports db @ [row'] \<and>
         x_id row' = x_id row \<and>
         (export_completed row' \<or> export_failed row') \<and>
         \<not> (export_completed row' \<and> export_failed row'))) \<and>
   (orm_exports db1 = orm_exports db \<or>
    (\<exists>row. orm_exports db1 = orm_exports db @ [row] \<and> x_status row = XPending)) \<and>
   (\<forall>task db2.
      length (orm_exports (export_timer rnd now task db2)) = length (orm_exports db2) \<and>
      (\<forall>i < length (orm_exports db2).
         if x_id (orm_exports db2 ! i) = t_exportId task
         then export_completed (orm_exports (export_timer rnd now task db2) ! i) \<or>
              export_failed (orm_exports (export_timer rnd now task db2) ! i)
         else orm_exports (export_timer rnd now task db2) ! i = orm_exports db2 ! i))"
proof (intro conjI allI impI)
  assume c: "create_export clk xid aid db req issues requestBody = (db1, rep, sched)"
  note cc = create_export_cases [OF c]
  show "orm_exports db1 = orm_exports db \<or>
    (\<exists>row. orm_exports db1 = orm_exports db @ [row] \<and> x_status row = XPending)"
    using cc by blast
  { fix row assume r: "rep = Reply 200 (Data row)"
    from cc r obtain task where
      e: "orm_exports db1 = orm_exports db @ [row]" and p: "x_status row = XPending" and
      i: "x_id row = xid" and fresh: "xid \<notin> set (map x_id (orm_exports db))" and
      s: "sched = Some task" and t: "t_exportId task = xid"
      by auto
    show "x_status row = XPending" by (rule p)
    show "orm_exports db1 = orm_exports db @ [row]" by (rule e)
    from export_timer_rows [of rnd now task db1] obtain f where
      m: "orm_exports (export_timer rnd now task db1) =
            map (\<lambda>x. if x_id x = t_exportId task then f x else x) (orm_exports db1)" and
      f: "\<And>x. x_id (f x) = x_id x \<and> (export_completed (f x) \<or> export_failed (f x)) \<and>
            \<not> (export_completed (f x) \<and> export_failed (f x))"
      by blast
    have "map (\<lambda>x. if x_id x = xid then f x else x) (orm_exports db) = orm_exports db"
      using fresh by (intro map_idI) auto
    then have "orm_exports (export_timer rnd now task db1) = orm_exports db @ [f row]"
      by (simp add: m e t i)
    then show "\<exists>task row'. sched = Some task \<and> t_exportId task = x_id row \<and>
         orm_exports (export_timer rnd now task db1) = orm_exports db @ [row'] \<and>
         x_id row' = x_id row \<and>
         (export_completed row' \<or> export_failed row') \<and>
         \<not> (export_completed row' \<and> export_failed row')"
      using s t i f [of row] by auto
  }
  fix task db2
  from export_timer_rows [of rnd now task db2] obtain f where
      m: "orm_exports (export_timer rnd now task db2) =
            map (\<lambda>x. if x_id x = t_exportId task then f x else x) (orm_exports db2)" and
      f: "\<And>x. x_id (f x) = x_id x \<and> (export_completed (f x) \<or> export_failed (f x)) \<and>
            \<not> (export_completed (f x) \<and> export_failed (f x))"
      by blast
  show "length (orm_exports (export_timer rnd now task db2)) = length (orm_exports db2)"
    by (simp add: m)
  fix i assume "i < length (orm_exports db2)"
  then show "if x_id (orm_exports db2 ! i) = t_exportId task
         then export_completed (orm_exports (export_timer rnd now task db2) ! i) \<or>
              export_failed (orm_exports (export_timer rnd now task db2) ! i)
         else orm_exports (export_timer rnd now task db2) ! i = orm_exports db2 ! i"
    using f by (simp add: m)
qed

lemma uuid_in_examples:
  "uuid_in ''123e4567-e89b-42d3-a456-426614174000'' = Some ''123e4567-e89b-42d3-a456-426614174000''"
  "uuid_in ''{123E4567E89B-42D3A456-426614174000}'' = Some ''123e4567-e89b-42d3-a456-426614174000''"
  "uuid_in ''9b2f6c1e-4d3a-4f7b-8c21-0a1b2c3d4e5f'' = Some ''9b2f6c1e-4d3a-4f7b-8c21-0a1b2c3d4e5f''"
  "uuid_in ''5e8a7d10-3c4b-4a6f-9d2e-7f8091a2b3c4'' = Some ''5e8a7d10-3c4b-4a6f-9d2e-7f8091a2b3c4''"
  "uuid_in ''demo-tenant-1'' = None"
  "uuid_in ''user-2'' = None"
  "uuid_in ''report-1'' = None"
  by code_simp+

lemma createExportSchema_parse_examples:
  "createExportSchema_parse demo_export_body =
     Some \<lparr> ce_reportId = ''123e4567-e89b-42d3-a456-426614174000'', ce_target = ServiceNow,
            ce_format = FormatJson, ce_template = None, ce_fieldMapping = None \<rparr>"
  "createExportSchema_parse
     (JObj [(''reportId'', JStr ''report-1''), (''target'', JStr ''servicenow''),
            (''format'', JStr ''json'')]) = None"
  by code_simp+

lemma create_export_with_orm_user:
  "\<exists>db1 row task.
     create_export demo_clock ''0f1e2d3c-4b5a-4978-8695-a4b3c2d1e0f9''
       ''c0ffee00-1234-4abc-8def-0123456789ab'' demo_orm orm_user_request ''[]'' demo_export_body =
       (db1, Reply 200 (Data row), Some task) \<and>
     x_status row = XPending \<and> orm_exports db1 = [row] \<and>
     map x_status (orm_exports (export_timer \<lparr> inc_digits = ''1234567'', draw1 = 1, draw2 = 2 \<rparr>
        ''2025-09-15T09:00:01.000Z'' task db1)) = [XCompleted] \<and>
     map x_externalId (orm_exports (export_timer \<lparr> inc_digits = ''1234567'', draw1 = 1, draw2 = 2 \<rparr>
        ''2025-09-15T09:00:01.000Z'' task db1)) = [Some ''INC1234567'']"
  by (simp add: create_export_def createExportSchema_parse_examples uuid_in_examples
      demo_orm_def orm_user_request_def demo_clock_def demo_report_def Let_def
      export_timer_def processExport_def update_exports_def)

lemma seedData_users_tenant:
  "row \<in> set (seedData_users now) \<Longrightarrow> u_tenantId row = ''demo-tenant-1''"
  by (auto simp: seedData_users_def)

text \<open>
  C6. As the server is composed, \<open>POST /api/exports\<close> creates no export. The hook of
  the export routes is \<open>authenticate\<close>, which attaches a user of the mock database, and
  the users of the mock database are the three that its constructor seeds, all of
  tenant \<open>demo-tenant-1\<close>. For every request that passes the hook, whatever the body and
  the state of the ORM database: an invalid body is answered with 400, and a valid one
  with 500, because the first query compares the uuid column \<open>tenant_id\<close> with
  \<open>demo-tenant-1\<close>; the database is left as it was, no export record is returned and
  no deferred step is scheduled.
\<close>

theorem create_export_creates_nothing:
  assumes s: "users mdb = seedData_users now"
    and a: "authenticate mdb req0 = (req, None)"
  shows "create_export clk xid aid db req issues requestBody =
           (db,
            if createExportSchema_parse requestBody = None
            then Reply 400 (ErrorDetails ''Validation error'' issues)
            else Reply 500 (ErrorBody ''Internal server error''),
            None)"
proof -
  from authenticate_attaches_user [OF a] obtain uid row where
    f: "findUserById mdb uid = Some row" and
    t: "map_option au_tenantId (user req) = Some (u_tenantId row)"
    by blast
  from f have "row \<in> set (users mdb)"
    by (auto simp: findUserById_def dest: find_Some_pred)
  with s have "u_tenantId row = ''demo-tenant-1''"
    by (simp add: seedData_users_tenant)
  with t obtain u where u: "user req = Some u" and "au_tenantId u = ''demo-tenant-1''"
    by auto
  then have n: "uuid_in (au_tenantId u) = None"
    by (simp add: uuid_in_examples)
  show ?thesis
    by (simp add: create_export_def u n split: option.splits)
qed

theorem create_export_creates_nothing_witness:
  "users seeded_db = seedData_users ''2025-09-15T09:00:00.000Z'' \<and>
   authenticate seeded_db (demo_request \<lparr> user := None \<rparr>) = (demo_request, None) \<and>
   createExportSchema_parse demo_export_body \<noteq> None \<and>
   create_export demo_clock ''0f1e2d3c-4b5a-4978-8695-a4b3c2d1e0f9''
     ''c0ffee00-1234-4abc-8def-0123456789ab'' demo_orm demo_request ''[]'' demo_export_body =
     (demo_orm, Reply 500 (ErrorBody ''Internal server error''), None)"
proof -
  have s: "users seeded_db = seedData_users ''2025-09-15T09:00:00.000Z''"
    by (simp add: seeded_db_def)
  have a: "authenticate seeded_db (demo_request \<lparr> user := None \<rparr>) = (demo_request, None)"
    by (simp add: authenticate_def findUserById_def seeded_db_def seedData_users_def
        demo_request_def)
  have p: "createExportSchema_parse demo_export_body \<noteq> None"
    by (simp add: createExportSchema_parse_examples)
  from create_export_creates_nothing [OF s a] p show ?thesis
    using s a by simp
qed

subsection \<open>The ASR processor\<close>



lemma set_offsets:
  "set (map (\<lambda>k. i + k) (rev [n ..< Suc hi])) = {e. \<exists>k. e = i + k \<and> n \<le> k \<and> k \<le> (hi::nat)}"
proof (intro set_eqI iffI)
  fix e assume "e \<in> set (map (\<lambda>k. i + k) (rev [n ..< Suc hi]))"
  then have "e \<in> (\<lambda>k. i + k) ` set (rev [n ..< Suc hi])" by (simp only: set_map)
  then obtain k where "e = i + k" and "k \<in> set (rev [n ..< Suc hi])" by (rule imageE)
  then have "e = i + k" "n \<le> k" "k < Suc hi" by (simp_all del: upt_Suc)
  then show "e \<in> {e. \<exists>k. e = i + k \<and> n \<le> k \<and> k \<le> hi}" by auto
next
  fix e assume "e \<in> {e. \<exists>k. e = i + k \<and> n \<le> k \<and> k \<le> hi}"
  then obtain k where "e = i + k" "n \<le> k" "k \<le> hi" by auto
  then have "k \<in> set (rev [n ..< Suc hi])" and e: "e = i + k" by (simp_all del: upt_Suc)
  then have "i + k \<in> (\<lambda>k. i + k) ` set (rev [n ..< Suc hi])" by (intro imageI)
  then show "e \<in> set (map (\<lambda>k. i + k) (rev [n ..< Suc hi]))" by (simp only: set_map e)
qed

lemma ends_Repeat_iff:
  "e \<in> set (ends (Repeat n mx p) s i) \<longleftrightarrow>
   (\<exists>k. e = i + k \<and> n \<le> k \<and>
        k \<le> (case mx of None \<Rightarrow> length (takeWhile p (drop i s))
                        | Some h \<Rightarrow> min h (length (takeWhile p (drop i s)))))"
  unfolding ends.simps Let_def set_offsets by simp


lemma takeWhile_run:
  "k \<le> length (takeWhile p xs) \<longleftrightarrow> k \<le> length xs \<and> list_all p (take k xs)"
proof (induction xs arbitrary: k)
  case Nil
  then show ?case by simp
next
  case (Cons x xs)
  show ?case
  proof (cases k)
    case 0
    then show ?thesis by simp
  next
    case (Suc k')
    then show ?thesis using Cons.IH [of k'] by auto
  qed
qed

lemma ends_bounds:
  "i \<le> length s \<Longrightarrow> e \<in> set (ends r s i) \<Longrightarrow> i \<le> e \<and> e \<le> length s"
proof (induction r arbitrary: i e)
  case (Cls p)
  then show ?case by (auto split: if_splits)
next
  case Bnd
  then show ?case by (auto split: if_splits)
next
  case (Seq a b)
  from Seq.prems(2) obtain j where j: "j \<in> set (ends a s i)" and e: "e \<in> set (ends b s j)"
    by auto
  from Seq.IH(1) [OF Seq.prems(1) j] have "i \<le> j" "j \<le> length s" by simp_all
  with Seq.IH(2) [OF \<open>j \<le> length s\<close> e] show ?case by simp
next
  case (Opt a)
  from Opt.prems(2) have "e \<in> set (ends a s i) \<or> e = i" by auto
  then show ?case
  proof
    assume "e \<in> set (ends a s i)"
    then show ?thesis by (rule Opt.IH [OF Opt.prems(1)])
  next
    assume "e = i"
    then show ?thesis using Opt.prems(1) by simp
  qed
next
  case (Repeat n mx p)
  let ?run = "length (takeWhile p (drop i s))"
  have "?run \<le> length s - i"
    using length_takeWhile_le [of p "drop i s"] by simp
  moreover from Repeat.prems(2) obtain k where "e = i + k"
    and "k \<le> (case mx of None \<Rightarrow> ?run | Some h \<Rightarrow> min h ?run)"
    unfolding ends_Repeat_iff by blast
  then have "e = i + k" "k \<le> ?run" by (simp_all split: option.splits)
  ultimately show ?case using Repeat.prems(1) by simp
qed

lemma ends_matches:
  "i \<le> length s \<Longrightarrow> e \<in> set (ends r s i) \<longleftrightarrow> matches r s i e"
proof (induction r arbitrary: i e)
  case (Cls p)
  then show ?case by (auto intro: matches.intros elim: matches_ClsE)
next
  case Bnd
  then show ?case by (auto intro: matches.intros elim: matches_BndE)
next
  case (Seq a b)
  show ?case
  proof
    assume "e \<in> set (ends (Seq a b) s i)"
    then obtain j where j: "j \<in> set (ends a s i)" and e: "e \<in> set (ends b s j)" by auto
    from ends_bounds [OF Seq.prems j] have jl: "j \<le> length s" by simp
    from j Seq.IH(1) [OF Seq.prems] have "matches a s i j" by simp
    moreover from e Seq.IH(2) [OF jl] have "matches b s j e" by simp
    ultimately show "matches (Seq a b) s i e" by (rule m_seq)
  next
    assume "matches (Seq a b) s i e"
    then obtain j where a: "matches a s i j" and b: "matches b s j e"
      by (rule matches_SeqE)
    from a Seq.IH(1) [OF Seq.prems] have j: "j \<in> set (ends a s i)" by simp
    from ends_bounds [OF Seq.prems j] have jl: "j \<le> length s" by simp
    from b Seq.IH(2) [OF jl] have "e \<in> set (ends b s j)" by simp
    with j show "e \<in> set (ends (Seq a b) s i)" by auto
  qed
next
  case (Opt a)
  show ?case
  proof
    assume "e \<in> set (ends (Opt a) s i)"
    then have "e \<in> set (ends a s i) \<or> e = i" by auto
    then show "matches (Opt a) s i e"
    proof
      assume "e \<in> set (ends a s i)"
      then have "matches a s i e" by (simp only: Opt.IH [OF Opt.prems])
      then show ?thesis by (rule m_opt_some)
    next
      assume "e = i"
      then show ?thesis by (simp only: m_opt_none)
    qed
  next
    assume "matches (Opt a) s i e"
    then show "e \<in> set (ends (Opt a) s i)"
    proof (rule matches_OptE)
      assume "matches a s i e"
      then have "e \<in> set (ends a s i)" by (simp only: Opt.IH [OF Opt.prems])
      then show ?thesis by simp
    next
      assume "e = i"
      then show ?thesis by simp
    qed
  qed
next
  case (Repeat n mx p)
  let ?run = "length (takeWhile p (drop i s))"
  have run: "\<And>k. k \<le> ?run \<longleftrightarrow> i + k \<le> length s \<and> list_all p (take k (drop i s))"
    using Repeat.prems by (auto simp: takeWhile_run)
  show ?case
  proof
    assume "e \<in> set (ends (Repeat n mx p) s i)"
    then obtain k where e: "e = i + k" and n: "n \<le> k" and
      hi: "k \<le> (case mx of None \<Rightarrow> ?run | Some h \<Rightarrow> min h ?run)"
      unfolding ends_Repeat_iff by blast
    from hi have kr: "k \<le> ?run" and mx: "(case mx of None \<Rightarrow> True | Some h \<Rightarrow> k \<le> h)"
      by (auto split: option.splits)
    from kr run have "i + k \<le> length s" "list_all p (take k (drop i s))" by simp_all
    with n mx show "matches (Repeat n mx p) s i e" unfolding e by (intro m_repeat)
  next
    assume "matches (Repeat n mx p) s i e"
    then obtain k where e: "e = i + k" and n: "n \<le> k" and
      mx: "(case mx of None \<Rightarrow> True | Some h \<Rightarrow> k \<le> h)" and
      l: "i + k \<le> length s" and a: "list_all p (take k (drop i s))"
      by (rule matches_RepeatE)
    from l a run have "k \<le> ?run" by simp
    with mx have "k \<le> (case mx of None \<Rightarrow> ?run | Some h \<Rightarrow> min h ?run)"
      by (auto split: option.splits)
    with n e show "e \<in> set (ends (Repeat n mx p) s i)"
      unfolding ends_Repeat_iff by blast
  qed
qed


lemma matches_lengths:
  "matches r s i j \<Longrightarrow> i \<le> j \<and> (0 < min_len r \<longrightarrow> i \<le> length s) \<and> i + min_len r \<le> j"
  by (induction rule: matches.induct) auto

lemma scan_sound:
  "\<forall>p \<in> set ps. p \<le> length s \<Longrightarrow> (i, e) \<in> set (scan r s ps lastIndex) \<Longrightarrow>
   i \<in> set ps \<and> lastIndex \<le> i \<and> (\<exists>es. ends r s i = e # es)"
proof (induction ps arbitrary: lastIndex)
  case Nil
  then show ?case by simp
next
  case (Cons p ps)
  from Cons.prems(1) have bound: "\<forall>p \<in> set ps. p \<le> length s" and pl: "p \<le> length s"
    by simp_all
  show ?case
  proof (cases "p < lastIndex")
    case True
    with Cons.prems have "(i, e) \<in> set (scan r s ps lastIndex)" by simp
    from Cons.IH [OF bound this] show ?thesis by simp
  next
    case False
    show ?thesis
    proof (cases "ends r s p")
      case Nil
      with False Cons.prems have "(i, e) \<in> set (scan r s ps lastIndex)" by simp
      from Cons.IH [OF bound this] show ?thesis by simp
    next
      case (Cons e' es)
      then have "e' \<in> set (ends r s p)" by simp
      from ends_bounds [OF pl this] have pe: "p \<le> e'" by simp
      from Cons False Cons.prems have
        "(i, e) = (p, e') \<or> (i, e) \<in> set (scan r s ps (if e' = p then e' + 1 else e'))"
        by simp
      then show ?thesis
      proof
        assume "(i, e) = (p, e')"
        then show ?thesis using False Cons by simp
      next
        assume "(i, e) \<in> set (scan r s ps (if e' = p then e' + 1 else e'))"
        from Cons.IH [OF bound this] show ?thesis using pe False by (auto split: if_splits)
      qed
    qed
  qed
qed

lemma scan_cover:
  "sorted_wrt (<) ps \<Longrightarrow> x \<in> set ps \<Longrightarrow> lastIndex \<le> x \<Longrightarrow> ends r s x \<noteq> [] \<Longrightarrow>
   \<exists>i e. (i, e) \<in> set (scan r s ps lastIndex) \<and> i \<le> x \<and> (x = i \<or> x < e)"
proof (induction ps arbitrary: lastIndex)
  case Nil
  then show ?case by simp
next
  case (Cons p ps)
  from Cons.prems(1) have sorted: "sorted_wrt (<) ps" and less: "\<forall>y \<in> set ps. p < y"
    by simp_all
  show ?case
  proof (cases "p < lastIndex")
    case True
    with Cons.prems have x: "x \<in> set ps" by auto
    from Cons.IH [OF sorted x Cons.prems(3,4)] True show ?thesis by simp
  next
    case False
    show ?thesis
    proof (cases "ends r s p")
      case Nil
      with Cons.prems have x: "x \<in> set ps" by auto
      from Cons.IH [OF sorted x Cons.prems(3,4)] False Nil show ?thesis by simp
    next
      case (Cons e' es)
      let ?next = "if e' = p then e' + 1 else e'"
      have sc: "scan r s (p # ps) lastIndex = (p, e') # scan r s ps ?next"
        using False Cons by simp
      show ?thesis
      proof (cases "x = p")
        case True
        then show ?thesis unfolding sc by auto
      next
        case xp: False
        with Cons.prems(2) have x: "x \<in> set ps" by simp
        with less have px: "p < x" by simp
        show ?thesis
        proof (cases "?next \<le> x")
          case True
          from Cons.IH [OF sorted x True Cons.prems(4)] obtain i e where
            "(i, e) \<in> set (scan r s ps ?next)" "i \<le> x" "x = i \<or> x < e" by blast
          then have "(i, e) \<in> set (scan r s (p # ps) lastIndex) \<and> i \<le> x \<and> (x = i \<or> x < e)"
            unfolding sc by simp
          then show ?thesis by blast
        next
          case False
          with px have "x < e'" by (auto split: if_splits)
          with px have "(p, e') \<in> set (scan r s (p # ps) lastIndex) \<and> p \<le> x \<and> (x = p \<or> x < e')"
            unfolding sc by simp
          then show ?thesis by blast
        qed
      qed
    qed
  qed
qed

lemma scan_ordered:
  "sorted_wrt (<) ps \<Longrightarrow> \<forall>p \<in> set ps. p \<le> length s \<Longrightarrow>
   sorted_wrt (\<lambda>m m'. snd m \<le> fst m' \<and> fst m < fst m') (scan r s ps lastIndex)"
proof (induction ps arbitrary: lastIndex)
  case Nil
  then show ?case by simp
next
  case (Cons p ps)
  from Cons.prems have sorted: "sorted_wrt (<) ps" and less: "\<forall>y \<in> set ps. p < y"
    and bound: "\<forall>p \<in> set ps. p \<le> length s"
    by simp_all
  show ?case
  proof (cases "p < lastIndex \<or> ends r s p = []")
    case True
    then have "scan r s (p # ps) lastIndex = scan r s ps lastIndex" by auto
    then show ?thesis using Cons.IH [OF sorted bound] by simp
  next
    case False
    then obtain e' es where e: "ends r s p = e' # es" by (cases "ends r s p") auto
    let ?next = "if e' = p then e' + 1 else e'"
    have sc: "scan r s (p # ps) lastIndex = (p, e') # scan r s ps ?next"
      using False e by simp
    have "\<forall>m \<in> set (scan r s ps ?next). e' \<le> fst m \<and> p < fst m"
    proof
      fix m assume "m \<in> set (scan r s ps ?next)"
      then have "(fst m, snd m) \<in> set (scan r s ps ?next)" by simp
      from scan_sound [OF bound this] less show "e' \<le> fst m \<and> p < fst m"
        by (auto split: if_splits)
    qed
    then show ?thesis unfolding sc using Cons.IH [OF sorted bound, of ?next] by simp
  qed
qed


lemma positions_bounded: "\<forall>p \<in> set [0 ..< Suc (length s)]. p \<le> length s"
  by (simp del: upt_Suc)

lemma matchAll_sound:
  assumes "(i, e) \<in> set (matchAll r s)"
  shows "i \<le> e \<and> e \<le> length s \<and> matches r s i e"
proof -
  from scan_sound [OF positions_bounded assms [unfolded matchAll_def]]
  obtain es where i: "i \<in> set [0 ..< Suc (length s)]" and e: "ends r s i = e # es" by blast
  from i have il: "i \<le> length s" by (simp del: upt_Suc)
  from e have mem: "e \<in> set (ends r s i)" by simp
  from ends_bounds [OF il mem] ends_matches [OF il, of e r] mem show ?thesis by simp
qed

lemma matchAll_cover:
  assumes m: "matches r s x j" and xl: "x \<le> length s"
  shows "\<exists>i e. (i, e) \<in> set (matchAll r s) \<and> i \<le> x \<and> (x = i \<or> x < e)"
proof -
  from m ends_matches [OF xl, of j r] have "ends r s x \<noteq> []" by auto
  moreover have "x \<in> set [0 ..< Suc (length s)]" using xl by (simp del: upt_Suc)
  moreover have "sorted_wrt (<) [0 ..< Suc (length s)]" by (rule sorted_wrt_upt)
  ultimately show ?thesis unfolding matchAll_def by (intro scan_cover) simp_all
qed

lemma matchAll_ordered:
  "sorted_wrt (\<lambda>m m'. snd m \<le> fst m' \<and> fst m < fst m') (matchAll r s)"
  unfolding matchAll_def by (rule scan_ordered [OF sorted_wrt_upt positions_bounded])

lemma js_slice_nat:
  "i \<le> e \<Longrightarrow> e \<le> length s \<Longrightarrow> js_slice s (int i) (int e) = take (e - i) (drop i s)"
  by (simp add: js_slice_def Let_def min_def nat_diff_distrib')

lemma pii_detections_sound:
  assumes "d \<in> set (pii_detections ty r t)"
  shows "d_type d = ty \<and>
         (\<exists>i e. (i, e) \<in> set (matchAll r t) \<and> d_startOffset d = int i \<and> d_endOffset d = int e \<and>
                d_text d = take (e - i) (drop i t) \<and>
                js_slice t (d_startOffset d) (d_endOffset d) = d_text d)"
proof -
  from assms obtain i e where m: "(i, e) \<in> set (matchAll r t)" and
    d: "d = \<lparr> d_type = ty, d_text = take (e - i) (drop i t), d_confidence = 90,
              d_startOffset = int i,
              d_endOffset = int i + int (length (take (e - i) (drop i t))) \<rparr>"
    by (auto simp: pii_detections_def Let_def)
  from matchAll_sound [OF m] have ie: "i \<le> e" and el: "e \<le> length t" by simp_all
  then have len: "int i + int (length (take (e - i) (drop i t))) = int e" by simp
  show ?thesis
    using m js_slice_nat [OF ie el, of ] by (auto simp: d len simp del: length_take)
qed

lemma pii_detections_ordered:
  "sorted_wrt (\<lambda>d d'. d_endOffset d \<le> d_startOffset d') (pii_detections ty r t)"
proof -
  let ?mk = "\<lambda>(index, e).
       let match0 = take (e - index) (drop index t)
       in \<lparr> d_type = ty, d_text = match0, d_confidence = 90,
            d_startOffset = int index,
            d_endOffset = int index + int (length match0) \<rparr>"
  have "sorted_wrt (\<lambda>m m'. d_endOffset (?mk m) \<le> d_startOffset (?mk m')) (matchAll r t)"
  proof (rule sorted_wrt_mono_rel [OF _ matchAll_ordered])
    fix m m' :: "nat \<times> nat"
    assume m: "m \<in> set (matchAll r t)" and o: "snd m \<le> fst m' \<and> fst m < fst m'"
    obtain i e where me: "m = (i, e)" by (cases m)
    obtain i' e' where me': "m' = (i', e')" by (cases m')
    from matchAll_sound [of i e r t] m me have "i \<le> e" "e \<le> length t" by simp_all
    then have "int i + int (length (take (e - i) (drop i t))) = int e" by simp
    then show "d_endOffset (?mk m) \<le> d_startOffset (?mk m')"
      using o by (simp add: me me' Let_def del: length_take)
  qed
  then show ?thesis unfolding pii_detections_def sorted_wrt_map .
qed


lemma piiPatterns_facts:
  "(ty, pattern) \<in> set piiPatterns \<Longrightarrow> ty \<noteq> Profanity \<and> 0 < min_len pattern"
  by (auto simp: piiPatterns_def email_pattern_def phone_pattern_def ssn_pattern_def
      credit_card_pattern_def seq_def)

lemma filter_pii_detections:
  "filter (\<lambda>d. d_type d = ty) (pii_detections ty' r t) =
   (if ty = ty' then pii_detections ty' r t else [])"
  by (auto simp: pii_detections_def filter_map o_def split_def Let_def filter_empty_conv)

lemma filter_profanity_detections:
  "ty \<noteq> Profanity \<Longrightarrow> filter (\<lambda>d. d_type d = ty) (profanity_detections t) = []"
  by (auto simp: profanity_detections_def filter_empty_conv Let_def split: if_splits)

lemma detectContent_by_type:
  "(ty, pattern) \<in> set piiPatterns \<Longrightarrow>
   filter (\<lambda>d. d_type d = ty) (detectContent t) = pii_detections ty pattern t"
  using piiPatterns_facts [of ty pattern]
  by (auto simp: detectContent_def piiPatterns_def filter_pii_detections filter_profanity_detections)

text \<open>
  C4, as the code has it. For each of the four PII patterns and every transcript: every
  detection of the pattern's type is a match of the pattern, from \<open>startOffset\<close> to
  \<open>endOffset\<close>, it is not empty, and the slice of the transcript between the two
  offsets is the detection's text; every substring that matches the pattern begins
  inside a detection of that type (it is that detection, or it overlaps one that the
  left-to-right scan found first); and the detections of one type follow each other
  without overlap.
\<close>

theorem pii_detections_are_matches:
  "(ty, pattern) \<in> set piiPatterns \<Longrightarrow>
   (\<forall>d \<in> set (detectContent t). d_type d = ty \<longrightarrow>
      js_slice t (d_startOffset d) (d_endOffset d) = d_text d \<and>
      (\<exists>i j. d_startOffset d = int i \<and> d_endOffset d = int j \<and> i < j \<and> matches pattern t i j)) \<and>
   (\<forall>i j. matches pattern t i j \<longrightarrow>
      (\<exists>d \<in> set (detectContent t). d_type d = ty \<and> d_startOffset d \<le> int i \<and> int i < d_endOffset d)) \<and>
   sorted_wrt (\<lambda>d d'. d_endOffset d \<le> d_startOffset d')
     (filter (\<lambda>d. d_type d = ty) (detectContent t))"
proof (intro conjI ballI allI impI)
  assume p: "(ty, pattern) \<in> set piiPatterns"
  note by_type = detectContent_by_type [OF p, of t]
  from piiPatterns_facts [OF p] have pos: "0 < min_len pattern" by simp
  show "sorted_wrt (\<lambda>d d'. d_endOffset d \<le> d_startOffset d')
     (filter (\<lambda>d. d_type d = ty) (detectContent t))"
    unfolding by_type by (rule pii_detections_ordered)
  { fix d assume "d \<in> set (detectContent t)" and "d_type d = ty"
    then have "d \<in> set (filter (\<lambda>d. d_type d = ty) (detectContent t))" by simp
    then have "d \<in> set (pii_detections ty pattern t)" unfolding by_type .
    from pii_detections_sound [OF this] obtain i e where
      m: "(i, e) \<in> set (matchAll pattern t)" and st: "d_startOffset d = int i" and
      en: "d_endOffset d = int e" and
      sl: "js_slice t (d_startOffset d) (d_endOffset d) = d_text d"
      by blast
    show "js_slice t (d_startOffset d) (d_endOffset d) = d_text d" by (rule sl)
    from matchAll_sound [OF m] have ma: "matches pattern t i e" by simp
    from matches_lengths [OF ma] pos have "i < e" by simp
    with st en ma show "\<exists>i j. d_startOffset d = int i \<and> d_endOffset d = int j \<and> i < j \<and>
        matches pattern t i j" by blast
  }
  fix x j assume ma: "matches pattern t x j"
  from matches_lengths [OF ma] pos have xl: "x \<le> length t" by simp
  from matchAll_cover [OF ma xl] obtain i e where
    m: "(i, e) \<in> set (matchAll pattern t)" and ix: "i \<le> x" and xe: "x = i \<or> x < e"
    by blast
  from matches_lengths [of pattern t i e] matchAll_sound [OF m] pos have "i < e" by simp
  with xe have xe': "x < e" by auto
  from matchAll_sound [OF m] have el: "e \<le> length t" and ie: "i \<le> e" by simp_all
  let ?d = "\<lparr> d_type = ty, d_text = take (e - i) (drop i t), d_confidence = 90,
              d_startOffset = int i,
              d_endOffset = int i + int (length (take (e - i) (drop i t))) \<rparr>"
  have "?d \<in> set (pii_detections ty pattern t)"
    using m by (force simp: pii_detections_def Let_def)
  then have "?d \<in> set (filter (\<lambda>d. d_type d = ty) (detectContent t))" unfolding by_type .
  then have mem: "?d \<in> set (detectContent t)" by simp
  have "int i + int (length (take (e - i) (drop i t))) = int e" using ie el by simp
  then have "d_type ?d = ty \<and> d_startOffset ?d \<le> int x \<and> int x < d_endOffset ?d"
    using ix xe' by (simp del: length_take)
  with mem show "\<exists>d \<in> set (detectContent t). d_type d = ty \<and> d_startOffset d \<le> int x \<and>
      int x < d_endOffset d"
    by blast
qed


theorem pii_detections_are_matches_witness:
  "(PiiSsn, ssn_pattern) \<in> set piiPatterns \<and>
   detectContent ''my ssn is 123-45-6789 ok'' =
     [\<lparr> d_type = PiiSsn, d_text = ''123-45-6789'', d_confidence = 90,
        d_startOffset = 10, d_endOffset = 21 \<rparr>] \<and>
   js_slice ''my ssn is 123-45-6789 ok'' 10 21 = ''123-45-6789'' \<and>
   matches ssn_pattern ''my ssn is 123-45-6789 ok'' 10 21"
proof -
  let ?t = "''my ssn is 123-45-6789 ok''"
  let ?d = "\<lparr> d_type = PiiSsn, d_text = ''123-45-6789'', d_confidence = 90,
        d_startOffset = 10, d_endOffset = 21 \<rparr>"
  have mem: "(PiiSsn, ssn_pattern) \<in> set piiPatterns" by (simp add: piiPatterns_def)
  have dc: "detectContent ?t = [?d]" by code_simp
  from pii_detections_are_matches [OF mem, of ?t]
  have "\<forall>d \<in> set (detectContent ?t). d_type d = PiiSsn \<longrightarrow>
      js_slice ?t (d_startOffset d) (d_endOffset d) = d_text d \<and>
      (\<exists>i j. d_startOffset d = int i \<and> d_endOffset d = int j \<and> i < j \<and> matches ssn_pattern ?t i j)"
    by (rule conjunct1)
  then have "js_slice ?t (d_startOffset ?d) (d_endOffset ?d) = d_text ?d \<and>
      (\<exists>i j. d_startOffset ?d = int i \<and> d_endOffset ?d = int j \<and> i < j \<and> matches ssn_pattern ?t i j)"
    unfolding dc by simp
  then obtain i j where sl: "js_slice ?t 10 21 = ''123-45-6789''"
    and i: "10 = int i" and j: "21 = int j" and m: "matches ssn_pattern ?t i j"
    by auto
  from i j have "i = 10" "j = 21" by simp_all
  with m have "matches ssn_pattern ?t 10 21" by simp
  with mem dc sl show ?thesis by (intro conjI)
qed

text \<open>
  C4, as the claim states it, fails: in \<open>a.b@c.de\<close> the substring \<open>b@c.de\<close> (from 2 to
  8) matches the email pattern, and the only detection is the one for the whole string.
\<close>

theorem overlapping_match_not_reported:
  "matches email_pattern ''a.b@c.de'' 2 8 \<and>
   detectContent ''a.b@c.de'' =
     [\<lparr> d_type = PiiEmail, d_text = ''a.b@c.de'', d_confidence = 90,
        d_startOffset = 0, d_endOffset = 8 \<rparr>]"
proof
  have "8 \<in> set (ends email_pattern ''a.b@c.de'' 2)" by code_simp
  then show "matches email_pattern ''a.b@c.de'' 2 8"
    by (simp only: ends_matches [of 2 "''a.b@c.de''" 8 email_pattern, simplified])
  show "detectContent ''a.b@c.de'' =
     [\<lparr> d_type = PiiEmail, d_text = ''a.b@c.de'', d_confidence = 90,
        d_startOffset = 0, d_endOffset = 8 \<rparr>]"
    by code_simp
qed


lemma element_at_Some: "element_at xs k = Some x \<Longrightarrow> x \<in> set xs"
  by (auto simp: element_at_def split: if_splits)

lemma length_samplePhrases: "length samplePhrases = 12"
  by (simp add: samplePhrases_def)

lemma simulateASR_returns:
  assumes "0 \<le> r" "r < 1"
  shows "\<exists>t. simulateASR r = Some t"
proof -
  have "0 \<le> r * 12" using assms by simp
  then have lo: "0 \<le> \<lfloor>r * 12\<rfloor>" by simp
  have "r * 12 < 12" using assms by simp
  then have hi: "\<lfloor>r * 12\<rfloor> < 12" by (simp add: floor_less_iff)
  from lo hi have "nat \<lfloor>r * 12\<rfloor> < 12" by linarith
  with lo show ?thesis by (simp add: simulateASR_def element_at_def length_samplePhrases)
qed

text \<open>
  C3. Whatever the audio chunk and the random draws, a result of \<open>processAudioChunk\<close>
  carries a transcript from the list \<open>samplePhrases\<close>, which has twelve elements; and
  with a draw in the range of \<open>Math.random()\<close> it does return a result.
\<close>

theorem streaming_transcript_is_sample:
  "(\<forall>res. processAudioChunk draws data = Inr res \<longrightarrow> asr_transcript res \<in> set samplePhrases) \<and>
   (0 \<le> phrase_draw draws \<and> phrase_draw draws < 1 \<longrightarrow>
      (\<exists>res. processAudioChunk draws data = Inr res \<and> asr_transcript res \<in> set samplePhrases)) \<and>
   length samplePhrases = 12"
proof (intro conjI allI impI)
  show "length samplePhrases = 12" by (rule length_samplePhrases)
  show sound: "asr_transcript res \<in> set samplePhrases" if "processAudioChunk draws data = Inr res" for res
    using that
    by (auto simp: processAudioChunk_def simulateASR_def Let_def split: option.splits
        dest: element_at_Some)
  assume "0 \<le> phrase_draw draws \<and> phrase_draw draws < 1"
  then obtain t where "simulateASR (phrase_draw draws) = Some t"
    using simulateASR_returns by blast
  then obtain res where r: "processAudioChunk draws data = Inr res"
    by (simp add: processAudioChunk_def Let_def)
  with sound show "\<exists>res. processAudioChunk draws data = Inr res \<and> asr_transcript res \<in> set samplePhrases"
    by blast
qed


theorem streaming_transcript_is_sample_witness:
  "\<exists>res. processAudioChunk \<lparr> phrase_draw = 1/2, confidence_draw = 1/4, speaker_draw = 3/4 \<rparr>
            demo_chunk = Inr res \<and>
         asr_transcript res = ''The driver update is installing now.'' \<and>
         asr_transcript res \<in> set samplePhrases"
proof -
  let ?draws = "\<lparr> phrase_draw = 1/2, confidence_draw = 1/4, speaker_draw = 3/4 \<rparr>"
  have range: "0 \<le> phrase_draw ?draws \<and> phrase_draw ?draws < 1" by simp
  from mp [OF conjunct1 [OF conjunct2 [OF streaming_transcript_is_sample [of ?draws demo_chunk]]] range]
  obtain res where r: "processAudioChunk ?draws demo_chunk = Inr res"
    and s: "asr_transcript res \<in> set samplePhrases" by blast
  have "map_sum id asr_transcript (processAudioChunk ?draws demo_chunk) =
      Inr ''The driver update is installing now.''"
    by (simp add: processAudioChunk_def simulateASR_def element_at_def samplePhrases_def Let_def)
  then have "asr_transcript res = ''The driver update is installing now.''" by (simp add: r)
  with r s show ?thesis by (intro exI [of _ res] conjI)
qed

subsection \<open>Routes that call the ORM on the mock database\<close>

text \<open>Read against an ORM database, the two handlers do what their statements say.\<close>


lemma generate_existing:
  assumes u: "user req = Some u"
    and s: "List.find (\<lambda>s. s_id s = sid \<and> s_tenantId s = au_tenantId u) (sessions db) = Some session"
    and r: "findReportBySessionId db sid = Some existing"
  shows "generate_report_orm clk day_after rid aid db req sid = (db, Reply 200 (Data existing))"
  using assms by (simp add: generate_report_orm_def findReportBySessionId_def)

lemma generate_adds_at_most_one:
  assumes "generate_report_orm clk day_after rid aid db req sid = (db', rep)"
  shows "reports db' = reports db \<or>
         (findReportBySessionId db sid = None \<and>
          (\<exists>report. reports db' = reports db @ [report] \<and> r_sessionId report = sid \<and>
             (rep = Reply 200 (Data report) \<or> rep = Reply 500 (ErrorBody ''Failed to generate report''))))"
  using assms
  by (auto simp: generate_report_orm_def findReportBySessionId_def Let_def
      split: option.splits sum.splits if_splits)

lemma find_append_new:
  "List.find P xs = None \<Longrightarrow> P x \<Longrightarrow> List.find P (xs @ [x]) = Some x"
  by (induction xs) (auto split: if_splits)

lemma find_append_old:
  "List.find P xs = Some y \<Longrightarrow> List.find P (xs @ zs) = Some y"
  by (induction xs) (auto split: if_splits)

lemma add_event_orm_guard:
  assumes "add_event_orm clk eid db req sid parsed = (db', rep)"
  shows "(events db' = events db \<and> db' = db) \<or>
         (\<exists>u session event. user req = Some u \<and>
            List.find (\<lambda>s. s_id s = sid \<and> s_tenantId s = au_tenantId u) (sessions db) = Some session \<and>
            s_status session = ''recording'' \<and> events db' = events db @ [event] \<and>
            e_sessionId event = sid \<and> rep = Reply 200 (Data event))"
  using assms
  by (auto simp: add_event_orm_def Let_def split: option.splits sum.splits if_splits)


lemma find_map_same:
  "(\<And>x. P (f x) = P x) \<Longrightarrow> List.find P (map f xs) = map_option f (List.find P xs)"
  by (induction xs) auto

lemma generate_report_orm_again:
  assumes u: "user req = Some u"
    and first: "generate_report_orm clk day_after rid aid db req sid = (db1, Reply 200 (Data report))"
  shows "generate_report_orm clk' day_after' rid' aid' db1 req sid = (db1, Reply 200 (Data report))"
proof -
  from first u obtain session where
    s: "List.find (\<lambda>s. s_id s = sid \<and> s_tenantId s = au_tenantId u) (sessions db) = Some session"
    by (auto simp: generate_report_orm_def split: option.splits)
  show ?thesis
  proof (cases "findReportBySessionId db sid")
    case (Some existing)
    from generate_existing [OF u s Some] first have "db1 = db" "report = existing" by simp_all
    with generate_existing [OF u s Some] show ?thesis by simp
  next
    case None
    let ?upd = "\<lambda>s. if s_id s = sid
                  then s \<lparr> s_status := ''completed'', s_updatedAt := now_iso clk \<rparr> else s"
    from first u s None have
      reps: "reports db1 = reports db @ [report]" and sid: "r_sessionId report = sid" and
      sess: "sessions db1 = map ?upd (sessions db)"
      by (auto simp: generate_report_orm_def findReportBySessionId_def Let_def
          split: option.splits sum.splits if_splits)
    have "List.find (\<lambda>s. s_id s = sid \<and> s_tenantId s = au_tenantId u) (sessions db1) =
          map_option ?upd (Some session)"
      unfolding sess s [symmetric] by (rule find_map_same) simp
    then have s1: "List.find (\<lambda>s. s_id s = sid \<and> s_tenantId s = au_tenantId u) (sessions db1) =
          Some (?upd session)" by simp
    have r1: "findReportBySessionId db1 sid = Some report"
      using None sid unfolding findReportBySessionId_def reps by (intro find_append_new) simp_all
    from generate_existing [OF u s1 r1] show ?thesis .
  qed
qed

text \<open>
  C8, on the code as it runs. The database of the example has a report for
  \<open>session-1\<close>, and the session belongs to the requesting user's tenant: the handler,
  read against an ORM database, answers with that report; the handler as it runs in
  its module answers 500.
\<close>

theorem generate_report_answers_500:
  "findReportBySessionId demo_db ''session-1'' =
     Some (demo_report ''report-1'' ''session-1'' ''demo-tenant-1'') \<and>
   generate_report_orm demo_clock (\<lambda>h. ''2025-09-16'') ''report-2'' ''audit-1'' demo_db demo_request
     ''session-1'' =
     (demo_db, Reply 200 (Data (demo_report ''report-1'' ''session-1'' ''demo-tenant-1''))) \<and>
   generate_report demo_db demo_request ''session-1'' =
     (demo_db, Reply 500 (ErrorBody ''Failed to generate report''))"
  by (simp add: generate_report_def generate_report_orm_def findReportBySessionId_def
      demo_db_def demo_request_def demo_report_def)

text \<open>
  C9, on the code as it runs. \<open>session-1\<close> of the example is completed, not recording.
  For a valid event body the handler, read against an ORM database, answers 400 with
  the message of its guard; the handler as it runs in its module answers 500. Neither
  changes the database.
\<close>

theorem add_event_answers_500:
  "add_event_orm demo_clock ''event-1'' demo_db demo_request ''session-1'' (Inr demo_event_body) =
     (demo_db, Reply 400 (ErrorBody ''Session is not in recording state'')) \<and>
   add_event demo_db demo_request ''session-1'' (Inr demo_event_body) =
     (demo_db, Reply 500 (ErrorBody ''Internal server error''))"
  by (simp add: add_event_def add_event_orm_def demo_db_def demo_request_def)

end
